theory Spec2Isabelle
  imports Main
begin

section \<open>Python values, exceptions and library functions\<close>

text \<open>
  The program is Python 2 (its strings are byte strings, \<^verbatim>\<open>base64.b64encode\<close> is applied
  to a \<^verbatim>\<open>str\<close> match group, \<^verbatim>\<open>/\<close> on integers is floor division).  A Python 2
  \<^verbatim>\<open>str\<close> is a \<^typ>\<open>string\<close>: a list of bytes.

  Every exception the program or a library call can raise is a value of \<open>exn\<close>, with its
  message; a computation that may raise returns \<open>exn + 'a\<close>, \<open>Inl\<close> being the raise.
\<close>

datatype exn =
    ValueError string
  | KeyError string
  | AttributeError string
  | UnboundLocalError string
  | TypeError string
  | StructError string
  | OverflowError string

definition seq :: "exn + 'a \<Rightarrow> ('a \<Rightarrow> exn + 'b) \<Rightarrow> exn + 'b" where
  "seq r f = (case r of Inl e \<Rightarrow> Inl e | Inr x \<Rightarrow> f x)"

text \<open>\<^verbatim>\<open>d[k]\<close> on a dict: \<^verbatim>\<open>KeyError\<close> when the key is missing.\<close>

definition getitem :: "(string \<rightharpoonup> 'v) \<Rightarrow> string \<Rightarrow> exn + 'v" where
  "getitem d k = (case d k of None \<Rightarrow> Inl (KeyError k) | Some v \<Rightarrow> Inr v)"

text \<open>\<^verbatim>\<open>self.x\<close> on an instance attribute that has not been assigned yet.\<close>

definition getattr :: "'v option \<Rightarrow> string \<Rightarrow> exn + 'v" where
  "getattr v name = (case v of None \<Rightarrow> Inl (AttributeError name) | Some x \<Rightarrow> Inr x)"

text \<open>The characters \<^verbatim>\<open>str.strip()\<close>, \<^verbatim>\<open>int()\<close> and the regular expression class
  \<^verbatim>\<open>\s\<close> count as white space: space, tab, line feed, carriage return, form feed and
  vertical tab.\<close>

definition is_space :: "char \<Rightarrow> bool" where
  "is_space c = (c = CHR '' '' \<or> c = CHR 0x09 \<or> c = CHR 0x0A \<or> c = CHR 0x0D
                 \<or> c = CHR 0x0C \<or> c = CHR 0x0B)"

definition strip :: "string \<Rightarrow> string" where
  "strip s = rev (dropWhile is_space (rev (dropWhile is_space s)))"

definition is_digit :: "char \<Rightarrow> bool" where
  "is_digit c = (48 \<le> (of_char c :: nat) \<and> (of_char c :: nat) \<le> 57)"

definition digits_value :: "string \<Rightarrow> nat" where
  "digits_value ds = foldl (\<lambda>acc c. 10 * acc + (of_char c - 48)) 0 ds"

text \<open>\<^verbatim>\<open>int(s)\<close> on a string, base 10: white space, an optional sign, white space
  (Python 2 skips it after the sign as well), at least one digit, white space.  Anything
  else is a \<^verbatim>\<open>ValueError\<close>.\<close>

definition int_literal :: "string \<Rightarrow> int option" where
  "int_literal s =
     (let t = dropWhile is_space s;
          neg = (t \<noteq> [] \<and> hd t = CHR ''-'');
          signed = (t \<noteq> [] \<and> (hd t = CHR ''-'' \<or> hd t = CHR ''+''));
          u = dropWhile is_space (if signed then tl t else t);
          ds = takeWhile is_digit u;
          rest = dropWhile is_space (dropWhile is_digit u)
      in if ds \<noteq> [] \<and> rest = []
         then Some (if neg then - int (digits_value ds) else int (digits_value ds))
         else None)"

definition py_int :: "string \<Rightarrow> exn + int" where
  "py_int s =
     (case int_literal s of
        Some n \<Rightarrow> Inr n
      | None \<Rightarrow> Inl (ValueError (''invalid literal for int() with base 10: '' @ s)))"

section \<open>The class attributes of \<^verbatim>\<open>VTKTreeBuilder\<close>\<close>

text \<open>The \<^verbatim>\<open>struct\<close> format characters the program uses, one constructor each:
  \<^verbatim>\<open>b B h H i I q Q f d\<close>.  (The dictionary \<^verbatim>\<open>python_types\<close> is read nowhere in the
  program and has no counterpart here.)\<close>

datatype code = Code_b | Code_B | Code_h | Code_H | Code_i | Code_I | Code_q | Code_Q
  | Code_f | Code_d

text \<open>The byte order characters: \<open>Little\<close> is \<^verbatim>\<open>"<"\<close> and \<open>Big\<close> is \<^verbatim>\<open>">"\<close>.\<close>

datatype endian = Little | Big

definition buffers :: "string \<rightharpoonup> code" where
  "buffers = [''Int8'' \<mapsto> Code_b, ''UInt8'' \<mapsto> Code_B, ''Int16'' \<mapsto> Code_h,
              ''UInt16'' \<mapsto> Code_H, ''Int32'' \<mapsto> Code_i, ''UInt32'' \<mapsto> Code_I,
              ''Int64'' \<mapsto> Code_q, ''UInt64'' \<mapsto> Code_Q, ''Float32'' \<mapsto> Code_f,
              ''Float64'' \<mapsto> Code_d]"

definition byteorders :: "string \<rightharpoonup> endian" where
  "byteorders = [''LittleEndian'' \<mapsto> Little, ''BigEndian'' \<mapsto> Big]"

section \<open>Elements and the builder's state\<close>

text \<open>
  A NumPy array: its element type, its shape and its items in row-major order.  An item
  of an integer type is its value; an item of a floating-point type is its IEEE 754 bit
  pattern read as an unsigned integer (NumPy copies the bytes of a binary buffer
  unchanged, so the pattern is the whole content).
\<close>

datatype ndarray = NDArray (dtype: code) (shape: "nat list") (items: "int list")

text \<open>An element of the tree: \<open>text_slot\<close> is \<^verbatim>\<open>Element.text\<close>, \<open>None\<close> until something
  is assigned to it (the builder overrides \<^verbatim>\<open>data\<close> without calling the base class, so
  the base class never assigns a text).\<close>

record element =
  tag :: string
  attrib :: "string \<rightharpoonup> string"
  text_slot :: "ndarray option"

text \<open>
  The builder.  Elements are objects that \<^verbatim>\<open>self.elem\<close> and the registrations of
  \<^verbatim>\<open>self.appended_data_arrays\<close> share by reference, so the state holds a store \<open>elems\<close>
  from addresses to elements and the references are addresses; \<open>n_elems\<close> is the next
  free address.  An instance attribute that \<^verbatim>\<open>__init__\<close> does not assign is \<open>None\<close>
  until its first assignment.  The shape of the tree (parents and children) is the base
  class's business and is not part of the state.
\<close>

record builder =
  elems :: "nat \<Rightarrow> element"
  n_elems :: nat
  elem :: "nat option"
  array_data :: string
  split_header :: "bool option"
  byteorder :: "endian option"
  header_type :: "code option"
  appended_data_arrays :: "(int \<times> string \<times> nat) list"

definition init :: builder where
  "init = \<lparr> elems = (\<lambda>_. \<lparr> tag = [], attrib = Map.empty, text_slot = None \<rparr>),
            n_elems = 0, elem = None, array_data = [], split_header = None,
            byteorder = None, header_type = None, appended_data_arrays = [] \<rparr>"

text \<open>\<^verbatim>\<open>self.elem = super().start(tag, attrib)\<close>: a new element, which becomes
  \<^verbatim>\<open>self.elem\<close>.\<close>

definition super_start :: "builder \<Rightarrow> string \<Rightarrow> (string \<rightharpoonup> string) \<Rightarrow> builder" where
  "super_start self t a =
     self\<lparr> elems := (elems self)(n_elems self := \<lparr> tag = t, attrib = a, text_slot = None \<rparr>),
           n_elems := Suc (n_elems self),
           elem := Some (n_elems self) \<rparr>"

subsection \<open>\<^verbatim>\<open>VTKTreeBuilder.start\<close>\<close>

text \<open>The \<^verbatim>\<open>VTKFile\<close> branch.  When \<^verbatim>\<open>byte_order\<close> is missing, the handler of the
  first \<^verbatim>\<open>KeyError\<close> evaluates \<^verbatim>\<open>attrib["byte_order"]\<close> again to format its message,
  and that second \<^verbatim>\<open>KeyError\<close> is what leaves the method.\<close>

definition start_VTKFile :: "builder \<Rightarrow> (string \<rightharpoonup> string) \<Rightarrow> exn + builder" where
  "start_VTKFile self a =
     (case a ''version'' of
        None \<Rightarrow> Inl (ValueError ''Missing version attribute in VTKFile tag'')
      | Some v \<Rightarrow>
          (case a ''byte_order'' of
             None \<Rightarrow> Inl (KeyError ''byte_order'')
           | Some b \<Rightarrow>
               (case byteorders b of
                  None \<Rightarrow> Inl (ValueError (''Unknown byteorder '' @ b))
                | Some bo \<Rightarrow>
                    Inr (self\<lparr> split_header := Some (v = ''0.1''),
                               byteorder := Some bo,
                               header_type :=
                                 Some (case a ''header_type'' of
                                         None \<Rightarrow> Code_I
                                       | Some h \<Rightarrow>
                                           (case buffers h of
                                              None \<Rightarrow> Code_I
                                            | Some c \<Rightarrow> c)) \<rparr>))))"

definition format_message :: "string \<Rightarrow> string" where
  "format_message f =
     ''VTK data format must be 'ascii', 'binary' (base64), or 'appended'. Got: '' @ f"

definition start_DataArray :: "builder \<Rightarrow> (string \<rightharpoonup> string) \<Rightarrow> exn + builder" where
  "start_DataArray self a =
     seq (getitem a ''format'') (\<lambda>f.
     seq (if f = ''appended''
          then seq (getitem a ''offset'') (\<lambda>off.
               seq (py_int off) (\<lambda>n.
               seq (getitem a ''type'') (\<lambda>ty.
               seq (getattr (elem self) ''elem'') (\<lambda>e.
               Inr (self\<lparr> appended_data_arrays :=
                              appended_data_arrays self @ [(n, ty, e)] \<rparr>)))))
          else Inr self) (\<lambda>self.
     if f \<noteq> ''binary'' \<and> f \<noteq> ''ascii'' \<and> f \<noteq> ''appended''
     then Inl (ValueError (format_message f))
     else Inr self))"

definition start :: "builder \<Rightarrow> string \<Rightarrow> (string \<rightharpoonup> string) \<Rightarrow> exn + builder" where
  "start self t a =
     (let self = (super_start self t a)\<lparr> array_data := [] \<rparr>
      in if t = ''VTKFile'' then start_VTKFile self a
         else if t = ''DataArray'' then start_DataArray self a
         else Inr self)"

section \<open>\<^verbatim>\<open>base64\<close>\<close>

text \<open>The base64 alphabet: the character of a 6-bit value, and \<^verbatim>\<open>table_a2b_base64\<close> of
  \<^verbatim>\<open>binascii\<close>, which gives the pad character \<^verbatim>\<open>=\<close> the value 0.\<close>

definition b2a :: "nat \<Rightarrow> char" where
  "b2a n = (if n < 26 then char_of (n + 65)
            else if n < 52 then char_of (n + 71)
            else if n < 62 then char_of (n - 4)
            else if n = 62 then CHR ''+'' else CHR ''/'')"

definition table_a2b :: "char \<Rightarrow> nat option" where
  "table_a2b c =
     (let v = (of_char c :: nat)
      in if 65 \<le> v \<and> v \<le> 90 then Some (v - 65)
         else if 97 \<le> v \<and> v \<le> 122 then Some (v - 71)
         else if 48 \<le> v \<and> v \<le> 57 then Some (v + 4)
         else if c = CHR ''+'' then Some 62
         else if c = CHR ''/'' then Some 63
         else if c = CHR ''='' then Some 0
         else None)"

text \<open>\<^verbatim>\<open>base64.b64encode\<close>: three bytes give four characters; one or two bytes left over
  give two or three characters and the padding.\<close>

fun b64encode :: "string \<Rightarrow> string" where
  "b64encode [] = []"
| "b64encode [x] =
     (let a = (of_char x :: nat)
      in [b2a (a div 4), b2a ((a mod 4) * 16), CHR ''='', CHR ''=''])"
| "b64encode [x, y] =
     (let a = (of_char x :: nat); b = (of_char y :: nat)
      in [b2a (a div 4), b2a ((a mod 4) * 16 + b div 16), b2a ((b mod 16) * 4), CHR ''=''])"
| "b64encode (x # y # z # r) =
     (let a = (of_char x :: nat); b = (of_char y :: nat); c = (of_char z :: nat)
      in [b2a (a div 4), b2a ((a mod 4) * 16 + b div 16),
          b2a ((b mod 16) * 4 + c div 64), b2a (c mod 64)]) @ b64encode r"

text \<open>\<^verbatim>\<open>binascii_find_valid(s, slen, num)\<close>: the character after \<open>num\<close> valid ones.\<close>

fun find_valid :: "string \<Rightarrow> nat \<Rightarrow> char option" where
  "find_valid [] num = None"
| "find_valid (c # cs) num =
     (if (of_char c :: nat) \<le> 127 \<and> table_a2b c \<noteq> None
      then (if num = 0 then Some c else find_valid cs (num - 1))
      else find_valid cs num)"

text \<open>
  The loop of \<^verbatim>\<open>binascii.a2b_base64\<close> (CPython 2.7), with its state \<open>quad_pos\<close>,
  \<open>leftbits\<close> and \<open>leftchar\<close>: characters outside the alphabet are skipped, a pad
  character that can end the data stops the loop, and bits left over at the end are the
  error "Incorrect padding" (\<open>None\<close>).
\<close>

fun a2b_loop :: "nat \<Rightarrow> nat \<Rightarrow> nat \<Rightarrow> string \<Rightarrow> string option" where
  "a2b_loop quad_pos leftbits leftchar [] = (if leftbits \<noteq> 0 then None else Some [])"
| "a2b_loop quad_pos leftbits leftchar (c # cs) =
     (if (of_char c :: nat) > 127 \<or> c = CHR 0x0D \<or> c = CHR 0x0A \<or> c = CHR '' ''
      then a2b_loop quad_pos leftbits leftchar cs
      else if c = CHR ''=''
      then (if quad_pos < 2 \<or> (quad_pos = 2 \<and> find_valid (c # cs) 1 \<noteq> Some (CHR ''=''))
            then a2b_loop quad_pos leftbits leftchar cs
            else Some [])
      else (case table_a2b c of
              None \<Rightarrow> a2b_loop quad_pos leftbits leftchar cs
            | Some v \<Rightarrow>
                (if leftbits + 6 \<ge> 8
                 then map_option
                        (Cons (char_of ((leftchar * 64 + v) div 2 ^ (leftbits + 6 - 8))))
                        (a2b_loop ((quad_pos + 1) mod 4) (leftbits + 6 - 8)
                           ((leftchar * 64 + v) mod 2 ^ (leftbits + 6 - 8)) cs)
                 else a2b_loop ((quad_pos + 1) mod 4) (leftbits + 6) (leftchar * 64 + v) cs)))"

text \<open>\<^verbatim>\<open>base64.b64decode\<close> turns \<^verbatim>\<open>binascii.Error\<close> into \<^verbatim>\<open>TypeError\<close>.\<close>

definition b64decode :: "string \<Rightarrow> exn + string" where
  "b64decode s =
     (case a2b_loop 0 0 0 s of
        None \<Rightarrow> Inl (TypeError ''Incorrect padding'')
      | Some bs \<Rightarrow> Inr bs)"

section \<open>\<^verbatim>\<open>struct\<close> and \<^verbatim>\<open>numpy\<close>\<close>

text \<open>\<^verbatim>\<open>struct.calcsize\<close> of one format character.  The sizes with a byte order prefix are
  the standard ones; the native sizes (no prefix) are taken to be the same, as they are
  on the platforms where a C \<^verbatim>\<open>int\<close> has 4 bytes and a \<^verbatim>\<open>long long\<close> 8.\<close>

fun calcsize :: "code \<Rightarrow> nat" where
  "calcsize Code_b = 1" | "calcsize Code_B = 1"
| "calcsize Code_h = 2" | "calcsize Code_H = 2"
| "calcsize Code_i = 4" | "calcsize Code_I = 4"
| "calcsize Code_q = 8" | "calcsize Code_Q = 8"
| "calcsize Code_f = 4" | "calcsize Code_d = 8"

fun is_signed :: "code \<Rightarrow> bool" where
  "is_signed Code_b = True" | "is_signed Code_h = True"
| "is_signed Code_i = True" | "is_signed Code_q = True"
| "is_signed _ = False"

fun is_float :: "code \<Rightarrow> bool" where
  "is_float Code_f = True" | "is_float Code_d = True"
| "is_float _ = False"

text \<open>\<^verbatim>\<open>struct.pack(byteorder + code, 0)\<close>: the zero of every format is all zero bytes.\<close>

definition pack_zero :: "code \<Rightarrow> string" where
  "pack_zero c = replicate (calcsize c) (CHR 0x00)"

text \<open>The unsigned value of a byte string, least significant byte first, and in the
  given byte order.\<close>

fun from_little :: "string \<Rightarrow> nat" where
  "from_little [] = 0"
| "from_little (c # cs) = of_char c + 256 * from_little cs"

definition unsigned_of :: "endian \<Rightarrow> string \<Rightarrow> nat" where
  "unsigned_of bo bs = from_little (case bo of Little \<Rightarrow> bs | Big \<Rightarrow> rev bs)"

text \<open>One item of the given format from its bytes: two's complement for the signed
  integer formats, the bit pattern for the floating-point formats.\<close>

definition item_of :: "endian \<Rightarrow> code \<Rightarrow> string \<Rightarrow> int" where
  "item_of bo c bs =
     (if is_signed c \<and> unsigned_of bo bs \<ge> 2 ^ (8 * length bs - 1)
      then int (unsigned_of bo bs) - 2 ^ (8 * length bs)
      else int (unsigned_of bo bs))"

text \<open>A Python number: an integer, or a float given by its format and IEEE 754 bit
  pattern.\<close>

datatype number = PyInt int | PyFloat code nat

text \<open>
  CPython converts an integer argument that a C function takes as a \<^verbatim>\<open>Py_ssize_t\<close> (the
  offset of \<^verbatim>\<open>struct.unpack_from\<close>, the count of \<^verbatim>\<open>np.fromstring\<close>) and raises
  \<^verbatim>\<open>OverflowError\<close> when the value is outside that type.  The type has 64 bits here (a
  64-bit build of CPython).
\<close>

definition ssize_max :: int where
  "ssize_max = 2 ^ 63 - 1"

definition as_ssize :: "int \<Rightarrow> exn + int" where
  "as_ssize n =
     (if n < - ssize_max - 1 \<or> ssize_max < n
      then Inl (OverflowError ''long int too large to convert to int'')
      else Inr n)"

text \<open>Arithmetic on a \<^verbatim>\<open>Py_ssize_t\<close> in C: the result modulo \<open>2 ^ 64\<close>, read as a signed
  number.\<close>

definition wrap_ssize :: "int \<Rightarrow> int" where
  "wrap_ssize n = (n + (ssize_max + 1)) mod (2 * (ssize_max + 1)) - (ssize_max + 1)"

text \<open>\<^verbatim>\<open>struct.unpack_from(byteorder + code, buffer, offset)[0]\<close>: the offset is converted
  to a \<^verbatim>\<open>Py_ssize_t\<close>; a negative offset counts from the end; \<^verbatim>\<open>struct.error\<close> when fewer
  bytes than the format's size are left.\<close>

definition unpack_from :: "endian \<Rightarrow> code \<Rightarrow> string \<Rightarrow> int \<Rightarrow> exn + number" where
  "unpack_from bo c buffer offset =
     seq (as_ssize offset) (\<lambda>offset.
     if (if offset < 0 then offset + int (length buffer) else offset) < 0
         \<or> int (length buffer) - (if offset < 0 then offset + int (length buffer) else offset)
             < int (calcsize c)
      then Inl (StructError ''unpack_from requires a buffer of at least the size of the format'')
      else Inr (if is_float c
                then PyFloat c
                  (unsigned_of bo (take (calcsize c)
                    (drop (nat (if offset < 0 then offset + int (length buffer) else offset))
                      buffer)))
                else PyInt
                  (item_of bo c (take (calcsize c)
                    (drop (nat (if offset < 0 then offset + int (length buffer) else offset))
                      buffer)))))"

text \<open>
  \<^verbatim>\<open>int(x / n)\<close> for a float \<open>x\<close> of format \<open>c\<close> with bit pattern \<open>bits\<close> and a positive
  integer \<open>n\<close>: with \<open>e\<close> exponent bits and \<open>m\<close> fraction bits, \<open>x\<close> is
  \<open>\<plusminus> M * 2 ^ (ex - (bias + m))\<close>; infinity is an \<^verbatim>\<open>OverflowError\<close>, a NaN a
  \<^verbatim>\<open>ValueError\<close>, and \<^verbatim>\<open>int\<close> truncates towards zero.  (The sizes \<open>n\<close> of the program are
  powers of two, so the float division loses nothing that the truncation keeps.)
\<close>

definition float_quotient :: "code \<Rightarrow> nat \<Rightarrow> nat \<Rightarrow> exn + int" where
  "float_quotient c bits n =
     (let e = (if c = Code_f then 8 else 11 :: nat);
          m = (if c = Code_f then 23 else 52 :: nat);
          negative = (bits div 2 ^ (e + m) mod 2 = 1);
          expo = bits div 2 ^ m mod 2 ^ e;
          frac = bits mod 2 ^ m;
          M = (if expo = 0 then frac else 2 ^ m + frac);
          ex = (if expo = 0 then 1 else expo);
          shift = 2 ^ (e - 1) - 1 + m;
          magnitude = (if ex \<ge> shift then (M * 2 ^ (ex - shift)) div n
                       else M div (2 ^ (shift - ex) * n))
      in if expo = 2 ^ e - 1
         then (if frac = 0 then Inl (OverflowError ''cannot convert float infinity to integer'')
               else Inl (ValueError ''cannot convert float NaN to integer''))
         else Inr (if negative then - int magnitude else int magnitude))"

text \<open>\<^verbatim>\<open>int(data_len / n)\<close>: floor division on a Python 2 integer.\<close>

definition quotient :: "number \<Rightarrow> nat \<Rightarrow> exn + int" where
  "quotient x n =
     (case x of
        PyInt v \<Rightarrow> Inr (v div int n)
      | PyFloat c bits \<Rightarrow> float_quotient c bits n)"

text \<open>The first \<open>n\<close> items of format \<open>c\<close> in a byte string.\<close>

fun items_from :: "endian \<Rightarrow> code \<Rightarrow> nat \<Rightarrow> string \<Rightarrow> int list" where
  "items_from bo c 0 s = []"
| "items_from bo c (Suc n) s =
     item_of bo c (take (calcsize c) s) # items_from bo c n (drop (calcsize c) s)"

text \<open>
  \<^verbatim>\<open>np.fromstring(s, dtype, count)\<close> on a binary string: the count is converted to a
  \<^verbatim>\<open>Py_ssize_t\<close>; a negative count takes the whole string, whose length must then be a
  multiple of the item size; otherwise the string must hold \<open>count\<close> items.  That test is
  \<^verbatim>\<open>slen < num * itemsize\<close> in C, on the wrapped product; a count that passes it with a
  product beyond the type is refused when the array is created, with a \<^verbatim>\<open>ValueError\<close>
  as well (its message is the one of the NumPy releases of the program's time).  The byte
  order is the one of the dtype.  (The exhaustion of memory is outside the model.)
\<close>

definition fromstring :: "endian \<Rightarrow> code \<Rightarrow> string \<Rightarrow> int \<Rightarrow> exn + ndarray" where
  "fromstring bo c s count =
     seq (as_ssize count) (\<lambda>num.
     if num < 0
     then (if length s mod calcsize c \<noteq> 0
           then Inl (ValueError ''string size must be a multiple of element size'')
           else Inr (NDArray c [length s div calcsize c]
                       (items_from bo c (length s div calcsize c) s)))
     else if int (length s) < wrap_ssize (num * int (calcsize c))
     then Inl (ValueError ''string is smaller than requested size'')
     else if ssize_max < num * int (calcsize c)
     then Inl (ValueError ''array is too big.'')
     else Inr (NDArray c [nat num] (items_from bo c (nat num) s)))"

text \<open>\<^verbatim>\<open>array.reshape(-1, ncomp)\<close>, for \<open>ncomp > 0\<close>: the items stay in row-major order and
  the shape becomes \<open>[rows, ncomp]\<close>; it fails when \<open>ncomp\<close> does not divide the number of
  items.\<close>

definition reshape :: "ndarray \<Rightarrow> int \<Rightarrow> exn + ndarray" where
  "reshape arr ncomp =
     (if int (length (items arr)) mod ncomp \<noteq> 0
      then Inl (ValueError ''total size of new array must be unchanged'')
      else Inr (NDArray (dtype arr) [length (items arr) div nat ncomp, nat ncomp] (items arr)))"

text \<open>The rows of a two-dimensional array, read off its row-major items.\<close>

fun rows_of :: "nat \<Rightarrow> nat \<Rightarrow> 'a list \<Rightarrow> 'a list list" where
  "rows_of 0 width xs = []"
| "rows_of (Suc n) width xs = take width xs # rows_of n width (drop width xs)"

text \<open>\<^verbatim>\<open>s[k:]\<close>: a negative index counts from the end.\<close>

definition slice_from :: "string \<Rightarrow> int \<Rightarrow> string" where
  "slice_from s k = drop (nat (if k < 0 then max 0 (k + int (length s)) else k)) s"

section \<open>\<^verbatim>\<open>VTKTreeBuilder\<close>: data, end and the two decoders\<close>

text \<open>\<^verbatim>\<open>data\<close>: the text is recorded only while \<^verbatim>\<open>self.elem\<close> is a \<^verbatim>\<open>DataArray\<close> or an
  \<^verbatim>\<open>AppendedData\<close> element.\<close>

definition data :: "builder \<Rightarrow> string \<Rightarrow> exn + builder" where
  "data self d =
     seq (getattr (elem self) ''elem'') (\<lambda>i.
     Inr (if tag (elems self i) = ''DataArray'' \<or> tag (elems self i) = ''AppendedData''
          then self\<lparr> array_data := array_data self @ d \<rparr>
          else self))"

text \<open>\<^verbatim>\<open>s * n\<close> on a string of length \<open>len\<close>: the length of the result.  The count is
  converted to a \<^verbatim>\<open>Py_ssize_t\<close>, a negative count gives the empty string, and a result
  longer than a \<^verbatim>\<open>Py_ssize_t\<close> can say is an \<^verbatim>\<open>OverflowError\<close>.\<close>

definition repeat_length :: "nat \<Rightarrow> int \<Rightarrow> exn + nat" where
  "repeat_length len n =
     (if n < - ssize_max - 1 \<or> ssize_max < n
      then Inl (OverflowError ''cannot fit 'long' into an index-sized integer'')
      else if ssize_max < int len * n
      then Inl (OverflowError ''repeated string is too long'')
      else Inr (len * nat n))"

text \<open>
  Lines 102 to 119 of \<^verbatim>\<open>handle_data_array\<close>: the flat array.  NumPy's text-mode parser
  (\<^verbatim>\<open>np.fromstring(s, dtype, sep=' ')\<close>) is outside the repository and is the parameter
  \<open>text_mode\<close>: it gives the items it reads from a text, or raises.

  In the branch for the combined header (\<open>split_header\<close> false), line 114 reads the local
  variable \<^verbatim>\<open>array_data\<close>, which the function assigns only later (lines 112, 117 and
  119): the read raises \<^verbatim>\<open>UnboundLocalError\<close>.

  Line 110 builds a format string that nothing uses, the byte order character followed
  by as many copies of the two characters of \<^verbatim>\<open>cbuf\<close> as there are items: only its
  failure matters (one more character always fits when the copies do, \<open>ssize_max\<close> being
  odd).  Line 111 computes the quotient of line 110 again.
\<close>

definition decode_array ::
  "(endian \<Rightarrow> code \<Rightarrow> string \<Rightarrow> exn + int list) \<Rightarrow> builder \<Rightarrow> exn + ndarray" where
  "decode_array text_mode self =
     seq (getattr (byteorder self) ''byteorder'') (\<lambda>bo.
     seq (getattr (elem self) ''elem'') (\<lambda>i.
     seq (getitem (attrib (elems self i)) ''type'') (\<lambda>ty.
     seq (getitem buffers ty) (\<lambda>c.
     seq (getitem (attrib (elems self i)) ''format'') (\<lambda>f.
     if f = ''binary''
     then seq (getattr (header_type self) ''header_type'') (\<lambda>h.
          seq (b64decode (take (length (b64encode (pack_zero h))) (strip (array_data self))))
            (\<lambda>header.
          seq (unpack_from bo h header 0) (\<lambda>data_len.
          seq (getattr (split_header self) ''split_header'') (\<lambda>split.
          if split
          then seq (b64decode (drop (length (b64encode (pack_zero h)))
                                 (strip (array_data self)))) (\<lambda>data_content.
               seq (quotient data_len (calcsize c)) (\<lambda>data_bytelen.
               seq (repeat_length 2 data_bytelen) (\<lambda>byte_string.
               fromstring bo c data_content data_bytelen)))
          else Inl (UnboundLocalError
                      ''local variable 'array_data' referenced before assignment'')))))
     else seq (text_mode bo c (array_data self)) (\<lambda>xs.
          Inr (NDArray c [length xs] xs)))))))"

text \<open>\<^verbatim>\<open>int(self.elem.attrib.get("NumberOfComponents") or 0)\<close>.\<close>

definition number_of_components :: "(string \<rightharpoonup> string) \<Rightarrow> exn + int" where
  "number_of_components a =
     (case a ''NumberOfComponents'' of
        None \<Rightarrow> Inr 0
      | Some s \<Rightarrow> if s = [] then Inr 0 else py_int s)"

definition set_text :: "(nat \<Rightarrow> element) \<Rightarrow> nat \<Rightarrow> ndarray \<Rightarrow> (nat \<Rightarrow> element)" where
  "set_text es i arr = es(i := (es i)\<lparr> text_slot := Some arr \<rparr>)"

definition handle_data_array ::
  "(endian \<Rightarrow> code \<Rightarrow> string \<Rightarrow> exn + int list) \<Rightarrow> builder \<Rightarrow> exn + builder" where
  "handle_data_array text_mode self =
     seq (decode_array text_mode self) (\<lambda>flat.
     seq (getattr (elem self) ''elem'') (\<lambda>i.
     seq (number_of_components (attrib (elems self i))) (\<lambda>ncomp.
     seq (if ncomp > 1 then reshape flat ncomp else Inr flat) (\<lambda>arr.
     Inr (self\<lparr> elems := set_text (elems self) i arr \<rparr>)))))"

text \<open>
  The loop of \<^verbatim>\<open>handle_appended_data\<close> over the registrations.  The dtype of line 136 is
  \<^verbatim>\<open>self.buffers[dtype]\<close> with no byte order character, which NumPy reads in the byte
  order of the machine: the parameter \<open>native\<close>.  The header of line 133 is read in the
  byte order of the document.
\<close>

fun resolve ::
  "endian \<Rightarrow> endian \<Rightarrow> code \<Rightarrow> string \<Rightarrow> (nat \<Rightarrow> element) \<Rightarrow> (int \<times> string \<times> nat) list
     \<Rightarrow> exn + (nat \<Rightarrow> element)" where
  "resolve native bo h raw_data es [] = Inr es"
| "resolve native bo h raw_data es ((offset, ty, parent_element) # rs) =
     seq (unpack_from bo h raw_data offset) (\<lambda>datalen.
     seq (getitem buffers ty) (\<lambda>cbuf.
     seq (quotient datalen (calcsize cbuf)) (\<lambda>data_bytelen.
     seq (fromstring native cbuf (slice_from raw_data (offset + int (calcsize h))) data_bytelen)
       (\<lambda>arr.
     resolve native bo h raw_data (set_text es parent_element arr) rs))))"

definition handle_appended_data :: "endian \<Rightarrow> builder \<Rightarrow> exn + builder" where
  "handle_appended_data native self =
     seq (b64decode (array_data self)) (\<lambda>raw_data.
     seq (getattr (byteorder self) ''byteorder'') (\<lambda>bo.
     seq (getattr (header_type self) ''header_type'') (\<lambda>h.
     seq (resolve native bo h raw_data (elems self) (appended_data_arrays self)) (\<lambda>es.
     Inr (self\<lparr> elems := es \<rparr>)))))"

text \<open>\<^verbatim>\<open>end\<close> (the base class's \<^verbatim>\<open>end\<close> closes the element in the tree).\<close>

definition end_tag ::
  "endian \<Rightarrow> (endian \<Rightarrow> code \<Rightarrow> string \<Rightarrow> exn + int list) \<Rightarrow> builder \<Rightarrow> string
     \<Rightarrow> exn + builder" where
  "end_tag native text_mode self t =
     seq (if t = ''DataArray'' then handle_data_array text_mode self
          else if t = ''AppendedData'' then handle_appended_data native self
          else Inr self) (\<lambda>self.
     Inr (self\<lparr> array_data := [] \<rparr>))"

text \<open>
  The events of a document: the XML parser calls \<^verbatim>\<open>start\<close>, \<^verbatim>\<open>data\<close> and \<^verbatim>\<open>end\<close> of
  the builder in document order, and the first exception ends the run.
\<close>

datatype event = Start string "string \<rightharpoonup> string" | Data string | End string

fun dispatch ::
  "endian \<Rightarrow> (endian \<Rightarrow> code \<Rightarrow> string \<Rightarrow> exn + int list) \<Rightarrow> builder \<Rightarrow> event
     \<Rightarrow> exn + builder" where
  "dispatch native text_mode self (Start t a) = start self t a"
| "dispatch native text_mode self (Data d) = data self d"
| "dispatch native text_mode self (End t) = end_tag native text_mode self t"

fun run ::
  "endian \<Rightarrow> (endian \<Rightarrow> code \<Rightarrow> string \<Rightarrow> exn + int list) \<Rightarrow> builder \<Rightarrow> event list
     \<Rightarrow> exn + builder" where
  "run native text_mode self [] = Inr self"
| "run native text_mode self (ev # evs) =
     seq (dispatch native text_mode self ev) (\<lambda>self. run native text_mode self evs)"



section \<open>\<^verbatim>\<open>VTKXMLParser\<close>: the patcher of raw appended data\<close>

definition raw_open :: string where
  \<open>raw_open = ''<AppendedData encoding="raw">''\<close>

definition raw_end_pattern :: string where
  "raw_end_pattern = ''</AppendedData>''"

definition raw_start_pattern :: string where
  "raw_start_pattern = raw_open @ ''_''"

definition starts_with :: "string \<Rightarrow> string \<Rightarrow> bool" where
  "starts_with pat s = (take (length pat) s = pat)"

definition ends_with :: "string \<Rightarrow> string \<Rightarrow> bool" where
  "ends_with pat s = starts_with (rev pat) (rev s)"

text \<open>\<^verbatim>\<open>pattern.search(s)\<close> for a pattern without special characters: does it occur?\<close>

fun search :: "string \<Rightarrow> string \<Rightarrow> bool" where
  "search pat [] = (pat = [])"
| "search pat (c # cs) = (starts_with pat (c # cs) \<or> search pat cs)"

text \<open>
  \<^verbatim>\<open>raw_sub_pattern\<close> is
  \<^verbatim>\<open>(?<=<AppendedData encoding="raw">)\s*_(.*)\s*(?=</AppendedData>)\<close>.

  \<open>group_and_rest s\<close> matches \<^verbatim>\<open>(.*)\s*(?=</AppendedData>)\<close> at the start of \<open>s\<close> as the
  backtracking matcher does: \<^verbatim>\<open>.\<close> takes any character but a line feed and \<^verbatim>\<open>.*\<close> is
  greedy, so the longer group is tried first; where the group stops, \<^verbatim>\<open>\s*\<close> must take
  the whole run of white space, since the closing tag starts with a character that is
  not white space.  The result is the group and the text after the match.
\<close>

fun group_and_rest :: "string \<Rightarrow> (string \<times> string) option" where
  "group_and_rest [] = None"
| "group_and_rest (c # cs) =
     (case (if c = CHR 0x0A then None else group_and_rest cs) of
        Some (g, r) \<Rightarrow> Some (c # g, r)
      | None \<Rightarrow>
          (if starts_with raw_end_pattern (dropWhile is_space (c # cs))
           then Some ([], dropWhile is_space (c # cs))
           else None))"

text \<open>The pattern after its look-behind: \<^verbatim>\<open>\s*_\<close> must take the whole run of white
  space as well, the underscore not being white space.\<close>

definition match_here :: "string \<Rightarrow> (string \<times> string) option" where
  "match_here s =
     (case dropWhile is_space s of
        [] \<Rightarrow> None
      | c # cs \<Rightarrow> if c = CHR ''_'' then group_and_rest cs else None)"

text \<open>\<^verbatim>\<open>raw_sub_pattern.search(s) is not None\<close>, scanning from the text \<open>seen\<close> so far.\<close>

fun sub_search :: "string \<Rightarrow> string \<Rightarrow> bool" where
  "sub_search seen [] = False"
| "sub_search seen (c # cs) =
     ((ends_with raw_open seen \<and> match_here (c # cs) \<noteq> None) \<or> sub_search (seen @ [c]) cs)"

text \<open>\<^verbatim>\<open>raw_sub_pattern.sub(lambda x: base64.b64encode(x.group(1)), s)\<close>: every match,
  from left to right, is replaced by the base64 text of its group; the scan goes on
  after the match.\<close>

function raw_sub :: "string \<Rightarrow> string \<Rightarrow> string" where
  "raw_sub seen [] = []"
| "raw_sub seen (c # cs) =
     (case (if ends_with raw_open seen then match_here (c # cs) else None) of
        Some (g, r) \<Rightarrow>
          b64encode g @ raw_sub (seen @ take (length (c # cs) - length r) (c # cs)) r
      | None \<Rightarrow> c # raw_sub (seen @ [c]) cs)"
  by pat_completeness auto
termination
proof (relation "measure (\<lambda>(seen, s). length s)")
  have gr: "length r \<le> length s" if "group_and_rest s = Some (g, r)" for s g r
    using that
  proof (induction s arbitrary: g r)
    case Nil
    then show ?case by simp
  next
    case (Cons c cs)
    have d: "length (dropWhile is_space (c # cs)) \<le> length (c # cs)"
      by (rule length_dropWhile_le)
    show ?case
    proof (cases "if c = CHR 0x0A then None else group_and_rest cs")
      case None
      with Cons.prems d show ?thesis
        by (auto split: if_splits)
    next
      case (Some p)
      obtain g' r' where p: "p = (g', r')" by (cases p)
      with Some have "group_and_rest cs = Some (g', r')"
        by (simp split: if_splits)
      then have "length r' \<le> length cs" by (rule Cons.IH)
      moreover from Some p Cons.prems have "r = r'" by simp
      ultimately show ?thesis by simp
    qed
  qed
  have mh: "length r < length s" if "match_here s = Some (g, r)" for s g r
  proof (cases "dropWhile is_space s")
    case Nil
    with that show ?thesis by (simp add: match_here_def)
  next
    case (Cons c cs)
    with that have "group_and_rest cs = Some (g, r)"
      by (simp add: match_here_def split: if_splits)
    then have "length r \<le> length cs" by (rule gr)
    moreover have "length (dropWhile is_space s) \<le> length s"
      by (rule length_dropWhile_le)
    ultimately show ?thesis using Cons by simp
  qed
  show "wf (measure (\<lambda>(seen, s). length s))" by simp
  show "((seen @ take (length (c # cs) - length r) (c # cs), r), seen, c # cs)
          \<in> measure (\<lambda>(seen, s). length s)"
    if "(if ends_with raw_open seen then match_here (c # cs) else None) = Some x"
      and "(g, r) = x" for seen c cs x g r
  proof -
    from that have "match_here (c # cs) = Some (g, r)"
      by (simp split: if_splits)
    then have "length r < length (c # cs)" by (rule mh)
    then show ?thesis by simp
  qed
  show "((seen @ [c], cs), seen, c # cs) \<in> measure (\<lambda>(seen, s). length s)"
    for seen c cs
    by simp
qed

text \<open>
  The parser's state, and \<open>fed\<close>: the chunks handed on to \<^verbatim>\<open>XMLParser.feed\<close> so far, in
  order (the tokenizer behind it is outside the repository).
\<close>

record parser =
  incomplete_raw_tag :: bool
  raw_data :: string
  fed :: "string list"

definition parser_init :: parser where
  "parser_init = \<lparr> incomplete_raw_tag = False, raw_data = [], fed = [] \<rparr>"

definition feed :: "parser \<Rightarrow> string \<Rightarrow> parser" where
  "feed self chunk =
     (let self = (if search raw_start_pattern chunk \<and> \<not> search raw_end_pattern chunk
                  then self\<lparr> incomplete_raw_tag := True \<rparr> else self)
      in if incomplete_raw_tag self
         then (let self = self\<lparr> raw_data := raw_data self @ chunk \<rparr>
               in if sub_search [] (raw_data self)
                  then self\<lparr> incomplete_raw_tag := False, raw_data := [],
                             fed := fed self @ [raw_sub [] (raw_data self)] \<rparr>
                  else self)
         else self\<lparr> fed := fed self @ [raw_sub [] chunk] \<rparr>)"

text \<open>Feeding a list of chunks, one call each.\<close>

definition feed_all :: "parser \<Rightarrow> string list \<Rightarrow> parser" where
  "feed_all self chunks = foldl feed self chunks"

section \<open>The writer's side of the round trips\<close>

text \<open>
  What the round-trip properties say a writer produces: the raw bytes of an item and of
  an array in a byte order (two's complement for a negative integer), and the length
  header, which is the byte length written as one item of the header type.  An item is in
  range when its format can hold it.
\<close>

fun to_little :: "nat \<Rightarrow> nat \<Rightarrow> string" where
  "to_little 0 v = []"
| "to_little (Suc n) v = char_of (v mod 256) # to_little n (v div 256)"

definition bytes_of :: "endian \<Rightarrow> nat \<Rightarrow> nat \<Rightarrow> string" where
  "bytes_of bo n v = (case bo of Little \<Rightarrow> to_little n v | Big \<Rightarrow> rev (to_little n v))"

definition item_bytes :: "endian \<Rightarrow> code \<Rightarrow> int \<Rightarrow> string" where
  "item_bytes bo c x = bytes_of bo (calcsize c) (nat (x mod 2 ^ (8 * calcsize c)))"

definition raw_bytes :: "endian \<Rightarrow> code \<Rightarrow> int list \<Rightarrow> string" where
  "raw_bytes bo c xs = concat (map (item_bytes bo c) xs)"

definition length_header :: "endian \<Rightarrow> code \<Rightarrow> string \<Rightarrow> string" where
  "length_header bo h content = item_bytes bo h (int (length content))"

definition in_range :: "code \<Rightarrow> int \<Rightarrow> bool" where
  "in_range c x =
     (if is_signed c
      then - (2 ^ (8 * calcsize c - 1)) \<le> x \<and> x < 2 ^ (8 * calcsize c - 1)
      else 0 \<le> x \<and> x < 2 ^ (8 * calcsize c))"

section \<open>Example documents\<close>

text \<open>The events of a version 0.1 document in big-endian byte order with one binary
  \<^verbatim>\<open>Int16\<close> array, up to the text of the array: the header 4 (\<^verbatim>\<open>AAAABA==\<close>) and the
  items 1 and -2 (\<^verbatim>\<open>AAH//g==\<close>), each encoded on its own.\<close>

definition split_example :: "exn + builder" where
  "split_example =
     seq (start init ''VTKFile'' [''version'' \<mapsto> ''0.1'', ''byte_order'' \<mapsto> ''BigEndian''])
       (\<lambda>s.
     seq (start s ''DataArray'' [''type'' \<mapsto> ''Int16'', ''format'' \<mapsto> ''binary'']) (\<lambda>s.
     data s ''AAAABA==AAH//g==''))"

text \<open>The events of a version 1.0 document in little-endian byte order with one binary
  \<^verbatim>\<open>UInt8\<close> array, up to the text of the array: the \<^verbatim>\<open>UInt32\<close> header 1 and the item 42,
  encoded together (\<^verbatim>\<open>AQAAACo=\<close>).\<close>

definition combined_example :: "exn + builder" where
  "combined_example =
     seq (start init ''VTKFile'' [''version'' \<mapsto> ''1.0'', ''byte_order'' \<mapsto> ''LittleEndian''])
       (\<lambda>s.
     seq (start s ''DataArray'' [''type'' \<mapsto> ''UInt8'', ''format'' \<mapsto> ''binary'']) (\<lambda>s.
     data s ''AQAAACo=''))"

text \<open>The same kind of document as \<open>split_example\<close>, with four items 1, -2, 3 and 4
  (header 8: \<^verbatim>\<open>AAAACA==\<close>, items: \<^verbatim>\<open>AAH//gADAAQ=\<close>) and the given
  \<^verbatim>\<open>NumberOfComponents\<close>.\<close>

definition reshape_example :: "string \<Rightarrow> exn + builder" where
  "reshape_example ncomp =
     seq (start init ''VTKFile'' [''version'' \<mapsto> ''0.1'', ''byte_order'' \<mapsto> ''BigEndian''])
       (\<lambda>s.
     seq (start s ''DataArray'' [''type'' \<mapsto> ''Int16'', ''format'' \<mapsto> ''binary'',
                                 ''NumberOfComponents'' \<mapsto> ncomp]) (\<lambda>s.
     data s ''AAAACA==AAH//gADAAQ=''))"

text \<open>
  The start events of a version 1.0 document with appended arrays, given by their types
  and offsets, up to the text of its \<^verbatim>\<open>AppendedData\<close> element: the state in which the
  element closes.  (The end events of the arrays come in between; they do not touch what
  the resolver reads and are left out.)
\<close>

fun start_arrays :: "builder \<Rightarrow> (string \<times> string) list \<Rightarrow> exn + builder" where
  "start_arrays s [] = Inr s"
| "start_arrays s ((ty, off) # r) =
     seq (start s ''DataArray'' [''type'' \<mapsto> ty, ''format'' \<mapsto> ''appended'', ''offset'' \<mapsto> off])
       (\<lambda>s. start_arrays s r)"

definition appended_example :: "string \<Rightarrow> (string \<times> string) list \<Rightarrow> string \<Rightarrow> exn + builder" where
  "appended_example byte_order arrays content =
     seq (start init ''VTKFile'' [''version'' \<mapsto> ''1.0'', ''byte_order'' \<mapsto> byte_order]) (\<lambda>s.
     seq (start_arrays s arrays) (\<lambda>s.
     seq (start s ''AppendedData'' [''encoding'' \<mapsto> ''base64'']) (\<lambda>s.
     data s content)))"


definition text_mode_example :: "endian \<Rightarrow> code \<Rightarrow> string \<Rightarrow> exn + int list" where
  "text_mode_example bo c s =
     (if s = ''1 2'' then Inr [1, 2]
      else if s = [] then Inr []
      else Inl (ValueError ''a text outside the example''))"

text \<open>
  The events of a whole version 1.0 document, little-endian, with one appended \<^verbatim>\<open>UInt8\<close>
  array at offset 0 that has the given attributes besides, and whose text comes in the
  given pieces; the appended data are the \<^verbatim>\<open>UInt32\<close> header 2 and the items 42 and 43
  (\<^verbatim>\<open>AgAAACor\<close>).
\<close>

definition appended_events :: "(string \<rightharpoonup> string) \<Rightarrow> string list \<Rightarrow> event list" where
  "appended_events extra texts =
     [Start ''VTKFile'' [''version'' \<mapsto> ''1.0'', ''byte_order'' \<mapsto> ''LittleEndian''],
      Start ''DataArray''
        (extra(''type'' \<mapsto> ''UInt8'', ''format'' \<mapsto> ''appended'', ''offset'' \<mapsto> ''0''))]
     @ map Data texts
     @ [End ''DataArray'',
        Start ''AppendedData'' [''encoding'' \<mapsto> ''raw''],
        Data ''AgAAACor'',
        End ''AppendedData'']"

section \<open>The start event\<close>

lemma start_VTKFile_eq:
  "start self ''VTKFile'' a = start_VTKFile ((super_start self ''VTKFile'' a)\<lparr> array_data := [] \<rparr>) a"
  by (simp add: start_def)

lemma start_DataArray_eq:
  "start self ''DataArray'' a =
     start_DataArray ((super_start self ''DataArray'' a)\<lparr> array_data := [] \<rparr>) a"
  by (simp add: start_def)

lemma byteorders_None_iff: "byteorders b = None \<longleftrightarrow> b \<noteq> ''LittleEndian'' \<and> b \<noteq> ''BigEndian''"
  by (simp add: byteorders_def)

lemma byteorders_Some_cases:
  "byteorders b = Some bo \<Longrightarrow> b = ''LittleEndian'' \<or> b = ''BigEndian''"
  by (simp add: byteorders_def split: if_splits)

text \<open>
  Claim C8.  A \<^verbatim>\<open>VTKFile\<close> start event raises the program's configuration error (a
  \<^verbatim>\<open>ValueError\<close>) exactly when \<^verbatim>\<open>version\<close> is absent or \<^verbatim>\<open>byte_order\<close> has a value
  other than \<^verbatim>\<open>LittleEndian\<close> and \<^verbatim>\<open>BigEndian\<close>; an absent \<^verbatim>\<open>byte_order\<close> beside a
  present \<^verbatim>\<open>version\<close> is a \<^verbatim>\<open>KeyError\<close>, not that error.  When the event succeeds,
  the split layout is selected exactly for version \<^verbatim>\<open>0.1\<close>.
\<close>

theorem start_VTKFile_configuration_error:
  "((\<exists>m. start self ''VTKFile'' a = Inl (ValueError m)) \<longleftrightarrow>
      (a ''version'' = None \<or>
       (\<exists>b. a ''byte_order'' = Some b \<and> b \<noteq> ''LittleEndian'' \<and> b \<noteq> ''BigEndian''))) \<and>
   (\<forall>self'. start self ''VTKFile'' a = Inr self' \<longrightarrow>
      (\<exists>v. a ''version'' = Some v \<and> split_header self' = Some (v = ''0.1'')))"
  by (auto simp: start_VTKFile_eq start_VTKFile_def byteorders_None_iff
           dest: byteorders_Some_cases split: option.splits)

theorem start_VTKFile_configuration_error_witness:
  "(\<exists>m. start init ''VTKFile'' [''byte_order'' \<mapsto> ''Middle'', ''version'' \<mapsto> ''1.0'']
          = Inl (ValueError m)) \<and>
   (\<exists>m. start init ''VTKFile'' [''byte_order'' \<mapsto> ''BigEndian''] = Inl (ValueError m)) \<and>
   start init ''VTKFile'' [''version'' \<mapsto> ''1.0''] = Inl (KeyError ''byte_order'') \<and>
   (\<exists>self'. start init ''VTKFile'' [''byte_order'' \<mapsto> ''BigEndian'', ''version'' \<mapsto> ''0.1'']
          = Inr self' \<and> split_header self' = Some True) \<and>
   (\<exists>self'. start init ''VTKFile'' [''byte_order'' \<mapsto> ''BigEndian'', ''version'' \<mapsto> ''1.0'']
          = Inr self' \<and> split_header self' = Some False)"
proof -
  let ?a1 = "[''byte_order'' \<mapsto> ''Middle'', ''version'' \<mapsto> ''1.0'']"
  let ?a2 = "[''byte_order'' \<mapsto> ''BigEndian'']"
  let ?a4 = "[''byte_order'' \<mapsto> ''BigEndian'', ''version'' \<mapsto> ''0.1'']"
  let ?a5 = "[''byte_order'' \<mapsto> ''BigEndian'', ''version'' \<mapsto> ''1.0'']"
  have 1: "\<exists>m. start init ''VTKFile'' ?a1 = Inl (ValueError m)"
    using start_VTKFile_configuration_error [of init ?a1] by simp
  have 2: "\<exists>m. start init ''VTKFile'' ?a2 = Inl (ValueError m)"
    using start_VTKFile_configuration_error [of init ?a2] by simp
  have 3: "start init ''VTKFile'' [''version'' \<mapsto> ''1.0''] = Inl (KeyError ''byte_order'')"
    by (simp add: start_VTKFile_eq start_VTKFile_def)
  have 4: "\<exists>self'. start init ''VTKFile'' ?a4 = Inr self' \<and> split_header self' = Some True"
    using start_VTKFile_configuration_error [of init ?a4]
    by (simp add: start_VTKFile_eq start_VTKFile_def byteorders_def)
  have 5: "\<exists>self'. start init ''VTKFile'' ?a5 = Inr self' \<and> split_header self' = Some False"
    using start_VTKFile_configuration_error [of init ?a5]
    by (simp add: start_VTKFile_eq start_VTKFile_def byteorders_def)
  from 1 2 3 4 5 show ?thesis by blast
qed

lemma seq_Inl_iff: "seq r f = Inl e \<longleftrightarrow> r = Inl e \<or> (\<exists>x. r = Inr x \<and> f x = Inl e)"
  by (cases r) (simp_all add: seq_def)

lemma seq_Inr [simp]: "seq (Inr x) f = f x"
  by (simp add: seq_def)

lemma seq_Inl [simp]: "seq (Inl e) f = Inl e"
  by (simp add: seq_def)

lemma py_int_Inl: "py_int s = Inl e \<Longrightarrow> e = ValueError (''invalid literal for int() with base 10: '' @ s)"
  by (simp add: py_int_def split: option.splits)

lemma getitem_Inl: "getitem d k = Inl e \<Longrightarrow> e = KeyError k"
  by (simp add: getitem_def split: option.splits)

lemma getattr_Inl: "getattr v n = Inl e \<Longrightarrow> e = AttributeError n"
  by (simp add: getattr_def split: option.splits)

lemma start_DataArray_appended_error:
  assumes "a ''format'' = Some ''appended''"
  shows "start_DataArray self a \<noteq> Inl (ValueError (format_message f))"
proof
  assume h: "start_DataArray self a = Inl (ValueError (format_message f))"
  from assms have g: "getitem a ''format'' = Inr ''appended''"
    by (simp add: getitem_def)
  from h show False
    unfolding start_DataArray_def g seq_Inr
    by (auto simp: seq_Inl_iff format_message_def
          dest!: py_int_Inl getitem_Inl getattr_Inl)
qed

text \<open>
  Claim C9.  A \<^verbatim>\<open>DataArray\<close> start event raises the program's format error (the
  \<^verbatim>\<open>ValueError\<close> with the message about the data format) exactly when the \<^verbatim>\<open>format\<close>
  attribute has a value that is none of \<^verbatim>\<open>ascii\<close>, \<^verbatim>\<open>binary\<close> and \<^verbatim>\<open>appended\<close>.  A
  missing \<^verbatim>\<open>format\<close> attribute is a \<^verbatim>\<open>KeyError\<close>, and the errors of an appended
  registration (a missing or malformed \<^verbatim>\<open>offset\<close>, a missing \<^verbatim>\<open>type\<close>) are other
  exceptions.
\<close>

theorem start_DataArray_format_error:
  "(\<exists>f. start self ''DataArray'' a = Inl (ValueError (format_message f))) \<longleftrightarrow>
   (\<exists>f. a ''format'' = Some f \<and> f \<noteq> ''ascii'' \<and> f \<noteq> ''binary'' \<and> f \<noteq> ''appended'')"
proof
  assume "\<exists>f. start self ''DataArray'' a = Inl (ValueError (format_message f))"
  then obtain f where f: "start self ''DataArray'' a = Inl (ValueError (format_message f))" ..
  show "\<exists>f. a ''format'' = Some f \<and> f \<noteq> ''ascii'' \<and> f \<noteq> ''binary'' \<and> f \<noteq> ''appended''"
  proof (cases "a ''format''")
    case None
    with f show ?thesis
      by (simp add: start_DataArray_eq start_DataArray_def getitem_def)
  next
    case (Some g)
    show ?thesis
    proof (cases "g = ''appended''")
      case True
      with f Some start_DataArray_appended_error show ?thesis
        by (simp add: start_DataArray_eq)
    next
      case False
      with f Some show ?thesis
        by (simp add: start_DataArray_eq start_DataArray_def getitem_def split: if_splits)
    qed
  qed
next
  assume "\<exists>f. a ''format'' = Some f \<and> f \<noteq> ''ascii'' \<and> f \<noteq> ''binary'' \<and> f \<noteq> ''appended''"
  then obtain f where "a ''format'' = Some f" "f \<noteq> ''ascii''" "f \<noteq> ''binary''" "f \<noteq> ''appended''"
    by blast
  then have "start self ''DataArray'' a = Inl (ValueError (format_message f))"
    by (simp add: start_DataArray_eq start_DataArray_def getitem_def)
  then show "\<exists>f. start self ''DataArray'' a = Inl (ValueError (format_message f))" ..
qed


theorem start_DataArray_format_error_witness:
  "(\<exists>f. start init ''DataArray'' [''format'' \<mapsto> ''zip''] = Inl (ValueError (format_message f))) \<and>
   \<not> (\<exists>f. start init ''DataArray'' [''format'' \<mapsto> ''ascii'']
          = Inl (ValueError (format_message f))) \<and>
   \<not> (\<exists>f. start init ''DataArray'' [''type'' \<mapsto> ''Int8'']
          = Inl (ValueError (format_message f)))"
  using start_DataArray_format_error [of init "[''format'' \<mapsto> ''zip'']"]
        start_DataArray_format_error [of init "[''format'' \<mapsto> ''ascii'']"]
        start_DataArray_format_error [of init "[''type'' \<mapsto> ''Int8'']"]
  by simp

text \<open>
  Claim C10.  A \<^verbatim>\<open>header_type\<close> attribute whose value is not a key of \<^verbatim>\<open>buffers\<close>
  raises nothing: the event fails or succeeds exactly as it does without the attribute,
  and when it succeeds the header type is \<^verbatim>\<open>I\<close> (unsigned 32-bit) in both cases, with
  the same layout and byte order.
\<close>

theorem start_VTKFile_unknown_header_type:
  assumes "buffers h = None"
  shows "(\<forall>e. start self ''VTKFile'' (a(''header_type'' \<mapsto> h)) = Inl e \<longleftrightarrow>
              start self ''VTKFile'' (a(''header_type'' := None)) = Inl e) \<and>
         (\<forall>s. start self ''VTKFile'' (a(''header_type'' \<mapsto> h)) = Inr s \<longrightarrow>
              header_type s = Some Code_I \<and>
              (\<exists>s'. start self ''VTKFile'' (a(''header_type'' := None)) = Inr s' \<and>
                    header_type s' = Some Code_I \<and>
                    split_header s' = split_header s \<and> byteorder s' = byteorder s))"
  using assms
  by (auto simp: start_VTKFile_eq start_VTKFile_def split: option.splits)

theorem start_VTKFile_unknown_header_type_witness:
  "buffers ''UInt128'' = None \<and>
   (\<exists>s. start init ''VTKFile''
          [''version'' \<mapsto> ''1.0'', ''byte_order'' \<mapsto> ''LittleEndian'',
           ''header_type'' \<mapsto> ''UInt128''] = Inr s \<and>
        header_type s = Some Code_I \<and> split_header s = Some False \<and> byteorder s = Some Little)"
proof -
  have h: "buffers ''UInt128'' = None"
    by (simp add: buffers_def)
  let ?a = "[''version'' \<mapsto> ''1.0'', ''byte_order'' \<mapsto> ''LittleEndian'']"
  obtain s where s: "start init ''VTKFile'' (?a(''header_type'' \<mapsto> ''UInt128'')) = Inr s"
    and l: "split_header s = Some False" "byteorder s = Some Little"
    by (simp add: start_VTKFile_eq start_VTKFile_def byteorders_def)
  from start_VTKFile_unknown_header_type [OF h, of init ?a] s
  have "header_type s = Some Code_I" by blast
  with h s l show ?thesis by blast
qed

section \<open>Base64: decoding undoes encoding\<close>

lemma char_of_eq_nat: "char_of (n::nat) = c \<longleftrightarrow> n mod 256 = of_char c"
  by (simp add: char_of_eq_iff take_bit_eq_mod)

lemma upper_not_pad: "(n::nat) < 26 \<Longrightarrow> char_of (n + 65) \<noteq> CHR ''=''"
  by (simp add: char_of_eq_nat)

lemma table_upper: "(n::nat) < 26 \<Longrightarrow> table_a2b (char_of (n + 65)) = Some n"
  by (simp add: table_a2b_def Let_def)

lemma table_lower: "26 \<le> n \<Longrightarrow> (n::nat) < 52 \<Longrightarrow> table_a2b (char_of (n + 71)) = Some n"
  by (simp add: table_a2b_def Let_def)

lemma table_digit: "52 \<le> n \<Longrightarrow> (n::nat) < 62 \<Longrightarrow> table_a2b (char_of (n - 4)) = Some n"
proof -
  assume a: "52 \<le> n" "n < 62"
  then have "48 \<le> n - 4" "n - 4 \<le> 57" "\<not> 65 \<le> n - 4" "\<not> 97 \<le> n - 4" "n - 4 + 4 = n"
       "(n - 4) mod 256 = n - 4"
    by simp_all
  then show ?thesis
    by (simp add: table_a2b_def Let_def)
qed

lemma table_b2a:
  assumes "n < 64"
  shows "table_a2b (b2a n) = Some n"
proof -
  consider "n < 26" | "26 \<le> n" "n < 52" | "52 \<le> n" "n < 62" | "n = 62" | "n = 63"
    using assms by linarith
  then show ?thesis
  proof cases
    case 1
    then show ?thesis by (simp add: b2a_def table_upper)
  next
    case 2
    then show ?thesis by (simp add: b2a_def table_lower)
  next
    case 3
    then show ?thesis by (simp add: b2a_def table_digit)
  next
    case 4
    then show ?thesis by (simp add: b2a_def table_a2b_def)
  next
    case 5
    then show ?thesis by (simp add: b2a_def table_a2b_def)
  qed
qed

lemma b2a_ascii: "n < 64 \<Longrightarrow> (of_char (b2a n) :: nat) \<le> 127"
  by (auto simp: b2a_def)

lemma b2a_not_pad: "n < 64 \<Longrightarrow> b2a n \<noteq> CHR ''=''"
  by (auto simp: b2a_def char_of_eq_nat)

lemma b2a_not_space: "n < 64 \<Longrightarrow> \<not> is_space (b2a n)"
  by (auto simp: b2a_def char_of_eq_nat is_space_def)

lemma length_b64encode: "length (b64encode bs) = 4 * ((length bs + 2) div 3)"
proof (induction bs rule: b64encode.induct)
  case (4 x y z r)
  have "(length r + 5) div 3 = Suc ((length r + 2) div 3)" by arith
  with 4 show ?case by (simp add: Let_def add.commute)
qed (simp_all add: Let_def)

lemma b2a_not_skipped:
  assumes "n < 64"
  shows "b2a n \<noteq> CHR 0x0D" "b2a n \<noteq> CHR 0x0A" "b2a n \<noteq> CHR '' ''"
  using b2a_not_space [OF assms] by (auto simp: is_space_def)

lemma a2b_loop_b2a:
  assumes "v < 64"
  shows "a2b_loop qp lb lc (b2a v # cs) =
     (if lb + 6 \<ge> 8
      then map_option (Cons (char_of ((lc * 64 + v) div 2 ^ (lb + 6 - 8))))
             (a2b_loop ((qp + 1) mod 4) (lb + 6 - 8) ((lc * 64 + v) mod 2 ^ (lb + 6 - 8)) cs)
      else a2b_loop ((qp + 1) mod 4) (lb + 6) (lc * 64 + v) cs)"
proof -
  have "\<not> (of_char (b2a v) :: nat) > 127"
    using b2a_ascii [OF assms] by simp
  then show ?thesis
    using b2a_not_skipped [OF assms] b2a_not_pad [OF assms] table_b2a [OF assms]
    by (simp del: One_nat_def)
qed

lemma sextets_bound:
  fixes a b c :: nat
  assumes "a < 256" "b < 256" "c < 256"
  shows "a div 4 < 64" "(a mod 4) * 16 + b div 16 < 64" "(b mod 16) * 4 + c div 64 < 64"
    "c mod 64 < 64" "(a mod 4) * 16 < 64" "(b mod 16) * 4 < 64"
proof -
  have 1: "a mod 4 < 4" "b mod 16 < 16" by simp_all
  from assms have 2: "b div 16 < 16" "c div 64 < 4"
    by (simp_all add: less_mult_imp_div_less)
  show "a div 4 < 64" using assms by (simp add: less_mult_imp_div_less)
  show "(a mod 4) * 16 + b div 16 < 64" using 1 2 by linarith
  show "(b mod 16) * 4 + c div 64 < 64" using 1 2 by linarith
  show "c mod 64 < 64" by simp
  show "(a mod 4) * 16 < 64" using 1 by linarith
  show "(b mod 16) * 4 < 64" using 1 by linarith
qed

lemma sextets_first:
  fixes a b :: nat
  assumes "b < 256"
  shows "(a div 4 * 64 + ((a mod 4) * 16 + b div 16)) div 16 = a"
    and "(a div 4 * 64 + ((a mod 4) * 16 + b div 16)) mod 16 = b div 16"
proof -
  have g: "(q * 4 + r) * 16 = q * 64 + r * 16" for q r :: nat
    by simp
  have "a div 4 * 4 + a mod 4 = a"
    by simp
  with g [of "a div 4" "a mod 4"] have "a * 16 = a div 4 * 64 + a mod 4 * 16"
    by (simp only:)
  then have e: "a div 4 * 64 + ((a mod 4) * 16 + b div 16) = a * 16 + b div 16"
    by (simp only: add.assoc)
  from assms have k: "b div 16 < 16"
    by (simp add: less_mult_imp_div_less)
  show "(a div 4 * 64 + ((a mod 4) * 16 + b div 16)) div 16 = a"
    unfolding e using k by simp
  show "(a div 4 * 64 + ((a mod 4) * 16 + b div 16)) mod 16 = b div 16"
    unfolding e using k by simp
qed

lemma sextets_second:
  fixes b c :: nat
  assumes "c < 256"
  shows "(b div 16 * 64 + ((b mod 16) * 4 + c div 64)) div 4 = b"
    and "(b div 16 * 64 + ((b mod 16) * 4 + c div 64)) mod 4 = c div 64"
proof -
  have g: "(q * 16 + r) * 4 = q * 64 + r * 4" for q r :: nat
    by simp
  have "b div 16 * 16 + b mod 16 = b"
    by simp
  with g [of "b div 16" "b mod 16"] have "b * 4 = b div 16 * 64 + b mod 16 * 4"
    by (simp only:)
  then have e: "b div 16 * 64 + ((b mod 16) * 4 + c div 64) = b * 4 + c div 64"
    by (simp only: add.assoc)
  from assms have k: "c div 64 < 4"
    by (simp add: less_mult_imp_div_less)
  show "(b div 16 * 64 + ((b mod 16) * 4 + c div 64)) div 4 = b"
    unfolding e using k by simp
  show "(b div 16 * 64 + ((b mod 16) * 4 + c div 64)) mod 4 = c div 64"
    unfolding e using k by simp
qed

lemma a2b_loop_quad:
  fixes a b c :: nat
  assumes "a < 256" "b < 256" "c < 256"
  shows "a2b_loop 0 0 0 (b2a (a div 4) # b2a ((a mod 4) * 16 + b div 16)
            # b2a ((b mod 16) * 4 + c div 64) # b2a (c mod 64) # cs)
     = map_option (\<lambda>r. char_of a # char_of b # char_of c # r) (a2b_loop 0 0 0 cs)"
proof -
  note bd = sextets_bound [OF assms]
  have 1: "a2b_loop 0 0 0 (b2a (a div 4) # R) = a2b_loop 1 6 (a div 4) R" for R
    using a2b_loop_b2a [OF bd(1), of 0 0 0 R] by simp
  have 2: "a2b_loop 1 6 (a div 4) (b2a ((a mod 4) * 16 + b div 16) # R)
      = map_option (Cons (char_of a)) (a2b_loop 2 4 (b div 16) R)" for R
    by (subst a2b_loop_b2a [OF bd(2)]) (simp del: a2b_loop.simps add: sextets_first [OF assms(2), of a] numeral_2_eq_2 [symmetric])
  have 3: "a2b_loop 2 4 (b div 16) (b2a ((b mod 16) * 4 + c div 64) # R)
      = map_option (Cons (char_of b)) (a2b_loop 3 2 (c div 64) R)" for R
    by (subst a2b_loop_b2a [OF bd(3)]) (simp del: a2b_loop.simps add: sextets_second [OF assms(3), of b])
  have 4: "a2b_loop 3 2 (c div 64) (b2a (c mod 64) # R)
      = map_option (Cons (char_of c)) (a2b_loop 0 0 0 R)" for R
    by (subst a2b_loop_b2a [OF bd(4)]) (simp del: a2b_loop.simps)
  show ?thesis
    by (simp only: 1 2 3 4 option.map_comp comp_def)
qed

lemma a2b_loop_one:
  fixes a :: nat
  assumes "a < 256"
  shows "a2b_loop 0 0 0 [b2a (a div 4), b2a ((a mod 4) * 16), CHR ''='', CHR ''='']
     = Some [char_of a]"
proof -
  note bd = sextets_bound [OF assms assms assms]
  have 1: "a2b_loop 0 0 0 (b2a (a div 4) # R) = a2b_loop 1 6 (a div 4) R" for R
    using a2b_loop_b2a [OF bd(1), of 0 0 0 R] by simp
  have 2: "a2b_loop 1 6 (a div 4) (b2a ((a mod 4) * 16) # R)
      = map_option (Cons (char_of a)) (a2b_loop 2 4 0 R)" for R
    by (subst a2b_loop_b2a [OF bd(5)]) (simp del: a2b_loop.simps add: sextets_first [of 0 a] numeral_2_eq_2 [symmetric])
  have 3: "a2b_loop 2 4 0 [CHR ''='', CHR ''=''] = Some []"
    by (simp add: table_a2b_def)
  show ?thesis
    by (simp only: 1 2 3 option.map)
qed

lemma a2b_loop_two:
  fixes a b :: nat
  assumes "a < 256" "b < 256"
  shows "a2b_loop 0 0 0 [b2a (a div 4), b2a ((a mod 4) * 16 + b div 16), b2a ((b mod 16) * 4),
            CHR ''='']
     = Some [char_of a, char_of b]"
proof -
  note bd = sextets_bound [OF assms assms(2)]
  have 1: "a2b_loop 0 0 0 (b2a (a div 4) # R) = a2b_loop 1 6 (a div 4) R" for R
    using a2b_loop_b2a [OF bd(1), of 0 0 0 R] by simp
  have 2: "a2b_loop 1 6 (a div 4) (b2a ((a mod 4) * 16 + b div 16) # R)
      = map_option (Cons (char_of a)) (a2b_loop 2 4 (b div 16) R)" for R
    by (subst a2b_loop_b2a [OF bd(2)]) (simp del: a2b_loop.simps add: sextets_first [OF assms(2), of a] numeral_2_eq_2 [symmetric])
  have 3: "a2b_loop 2 4 (b div 16) (b2a ((b mod 16) * 4) # R)
      = map_option (Cons (char_of b)) (a2b_loop 3 2 0 R)" for R
    by (subst a2b_loop_b2a [OF bd(6)]) (simp del: a2b_loop.simps add: sextets_second [of 0 b])
  have 4: "a2b_loop 3 2 0 [CHR ''=''] = Some []"
    by simp
  show ?thesis
    by (simp only: 1 2 3 4 option.map)
qed

lemma a2b_loop_b64encode: "a2b_loop 0 0 0 (b64encode bs) = Some bs"
proof (induction bs rule: b64encode.induct)
  case 1
  show ?case by simp
next
  case (2 x)
  show ?case
    using a2b_loop_one [of "of_char x"] by (simp add: Let_def)
next
  case (3 x y)
  show ?case
    using a2b_loop_two [of "of_char x" "of_char y"] by (simp add: Let_def)
next
  case (4 x y z r)
  show ?case
    using a2b_loop_quad [of "of_char x" "of_char y" "of_char z" "b64encode r"] 4
    by (simp add: Let_def)
qed

lemma b64decode_b64encode: "b64decode (b64encode bs) = Inr bs"
  by (simp add: b64decode_def a2b_loop_b64encode)

section \<open>Bytes and items\<close>

lemma length_to_little [simp]: "length (to_little n v) = n"
  by (induction n arbitrary: v) simp_all

lemma from_little_to_little: "from_little (to_little n v) = v mod 256 ^ n"
proof (induction n arbitrary: v)
  case 0
  show ?case by simp
next
  case (Suc n)
  have "v mod 256 + 256 * (v div 256 mod 256 ^ n) = v mod (256 * 256 ^ n)"
    by (simp add: mod_mult2_eq)
  with Suc show ?case by simp
qed

lemma length_bytes_of [simp]: "length (bytes_of bo n v) = n"
  by (cases bo) (simp_all add: bytes_of_def)

lemma unsigned_of_bytes_of: "unsigned_of bo (bytes_of bo n v) = v mod 256 ^ n"
  by (cases bo) (simp_all add: unsigned_of_def bytes_of_def from_little_to_little)

lemma length_item_bytes [simp]: "length (item_bytes bo c x) = calcsize c"
  by (simp add: item_bytes_def)

lemma calcsize_pos [simp]: "0 < calcsize c"
  by (cases c) simp_all

lemma pow256: "(256::nat) ^ n = 2 ^ (8 * n)"
proof -
  have "(256::nat) = 2 ^ 8" by simp
  then show ?thesis by (simp only: power_mult [symmetric])
qed

lemma unsigned_item_bytes:
  "int (unsigned_of bo (item_bytes bo c x)) = x mod 2 ^ (8 * calcsize c)"
proof -
  let ?M = "2 ^ (8 * calcsize c) :: int"
  have m: "0 \<le> x mod ?M" "x mod ?M < ?M"
    by simp_all
  have "nat (x mod ?M) < 2 ^ (8 * calcsize c)"
    using m by (simp add: nat_less_iff)
  then have "nat (x mod ?M) mod 256 ^ calcsize c = nat (x mod ?M)"
    by (simp add: pow256)
  then show ?thesis
    using m by (simp add: item_bytes_def unsigned_of_bytes_of)
qed

lemma item_of_item_bytes:
  assumes "in_range c x"
  shows "item_of bo c (item_bytes bo c x) = x"
proof -
  let ?n = "calcsize c"
  let ?M = "2 ^ (8 * ?n) :: int"
  let ?H = "2 ^ (8 * ?n - 1) :: int"
  let ?u = "unsigned_of bo (item_bytes bo c x)"
  have u: "int ?u = x mod ?M"
    by (rule unsigned_item_bytes)
  have "8 * ?n = Suc (8 * ?n - 1)"
    using calcsize_pos [of c] by simp
  then have "(2::int) ^ (8 * ?n) = 2 ^ Suc (8 * ?n - 1)"
    by (rule arg_cong)
  then have MH: "?M = 2 * ?H"
    by (simp only: power_Suc)
  have Hpos: "0 < ?H" by simp
  have cmp: "(2 ^ (8 * ?n - 1) \<le> ?u) = (?H \<le> int ?u)"
  proof -
    have "(2 ^ (8 * ?n - 1) \<le> ?u) = (int (2 ^ (8 * ?n - 1)) \<le> int ?u)"
      by (simp only: of_nat_le_iff)
    then show ?thesis by simp
  qed
  show ?thesis
  proof (cases "is_signed c")
    case False
    with assms have "0 \<le> x" "x < ?M" by (simp_all add: in_range_def)
    then have "x mod ?M = x" by simp
    with False u show ?thesis by (simp add: item_of_def)
  next
    case True
    with assms have r: "- ?H \<le> x" "x < ?H" by (simp_all add: in_range_def)
    show ?thesis
    proof (cases "0 \<le> x")
      case True
      with r MH Hpos have "x mod ?M = x" by simp
      with u have "int ?u = x" by simp
      with r have "\<not> ?H \<le> int ?u" by simp
      with cmp have "\<not> 2 ^ (8 * ?n - 1) \<le> ?u" by blast
      with \<open>int ?u = x\<close> show ?thesis
        by (simp add: item_of_def)
    next
      case False
      with r MH have "0 \<le> x + ?M" "x + ?M < ?M" by simp_all
      then have "(x + ?M) mod ?M = x + ?M" by (rule mod_pos_pos_trivial)
      then have "x mod ?M = x + ?M" by simp
      with u have e: "int ?u = x + ?M" by simp
      with r MH have "?H \<le> int ?u" by simp
      with cmp have "2 ^ (8 * ?n - 1) \<le> ?u" by blast
      with \<open>is_signed c\<close> e show ?thesis
        by (simp add: item_of_def)
    qed
  qed
qed

lemma items_from_raw_bytes:
  assumes "list_all (in_range c) xs"
  shows "items_from bo c (length xs) (raw_bytes bo c xs @ rest) = xs"
  using assms
proof (induction xs)
  case Nil
  show ?case by simp
next
  case (Cons x xs)
  then have "items_from bo c (length xs) (raw_bytes bo c xs @ rest) = xs" "in_range c x"
    by simp_all
  then show ?case
    by (simp add: raw_bytes_def item_of_item_bytes)
qed

lemma length_raw_bytes: "length (raw_bytes bo c xs) = length xs * calcsize c"
  by (induction xs) (simp_all add: raw_bytes_def)

lemma as_ssize_Inr: "- ssize_max - 1 \<le> n \<Longrightarrow> n \<le> ssize_max \<Longrightarrow> as_ssize n = Inr n"
  unfolding as_ssize_def by (simp only: not_less [symmetric] if_False simp_thms)

lemma as_ssize_Inl:
  "ssize_max < n \<Longrightarrow> as_ssize n = Inl (OverflowError ''long int too large to convert to int'')"
  unfolding as_ssize_def by (simp only: if_True simp_thms)

lemma ssize_max_pos: "0 < ssize_max"
  by (simp add: ssize_max_def)

lemma wrap_ssize_id: "- ssize_max - 1 \<le> n \<Longrightarrow> n \<le> ssize_max \<Longrightarrow> wrap_ssize n = n"
proof -
  assume a: "- ssize_max - 1 \<le> n" "n \<le> ssize_max"
  have "(n + (ssize_max + 1)) mod (2 * (ssize_max + 1)) = n + (ssize_max + 1)"
  proof (rule mod_pos_pos_trivial)
    from a show "0 \<le> n + (ssize_max + 1)" by simp
    from a show "n + (ssize_max + 1) < 2 * (ssize_max + 1)" by simp
  qed
  then show ?thesis
    unfolding wrap_ssize_def by simp
qed

lemma fromstring_in_range:
  assumes "0 \<le> n" "n * int (calcsize c) \<le> ssize_max"
  shows "fromstring bo c s n =
           (if int (length s) < n * int (calcsize c)
            then Inl (ValueError ''string is smaller than requested size'')
            else Inr (NDArray c [nat n] (items_from bo c (nat n) s)))"
proof -
  have "n * 1 \<le> n * int (calcsize c)"
    using assms(1) by (intro mult_left_mono) (cases c; simp)+
  with assms(2) have n: "n \<le> ssize_max"
    by simp
  from assms(1) ssize_max_pos have l: "- ssize_max - 1 \<le> n"
    by simp
  from assms(1) ssize_max_pos have "- ssize_max - 1 \<le> n * int (calcsize c)"
    by (smt (verit) mult_nonneg_nonneg of_nat_0_le_iff)
  then have w: "wrap_ssize (n * int (calcsize c)) = n * int (calcsize c)"
    using assms(2) by (rule wrap_ssize_id)
  show ?thesis
    using assms by (simp add: fromstring_def as_ssize_Inr [OF l n] w)
qed

lemma fromstring_raw_bytes:
  assumes "list_all (in_range c) xs" "int (length xs) * int (calcsize c) \<le> ssize_max"
  shows "fromstring bo c (raw_bytes bo c xs @ rest) (int (length xs))
           = Inr (NDArray c [length xs] xs)"
  using items_from_raw_bytes [OF assms(1)]
  by (simp add: fromstring_in_range [OF _ assms(2)] length_raw_bytes flip: of_nat_mult)

lemma unpack_from_item_bytes:
  assumes "\<not> is_float h" "in_range h v"
  shows "unpack_from bo h (item_bytes bo h v @ rest) 0 = Inr (PyInt v)"
  using assms ssize_max_pos by (simp add: unpack_from_def as_ssize_def item_of_item_bytes)

lemma quotient_byte_length:
  "quotient (PyInt (int (length xs * calcsize c))) (calcsize c) = Inr (int (length xs))"
  by (simp add: quotient_def flip: of_nat_mult zdiv_int)

lemma repeat_length_small:
  assumes "0 \<le> n" "int len * n \<le> ssize_max" "0 < len"
  shows "repeat_length len n = Inr (len * nat n)"
proof -
  have "1 * n \<le> int len * n"
    using assms(1,3) by (intro mult_right_mono) simp_all
  with assms(2) have "n \<le> ssize_max"
    by simp
  with assms ssize_max_pos show ?thesis
    by (simp add: repeat_length_def)
qed

lemma calcsize_le_8: "calcsize c \<le> 8"
  by (cases c) simp_all

lemma small_array_sizes:
  assumes "length xs < 2 ^ 60"
  shows "int (length xs) * int (calcsize c) \<le> ssize_max" "2 * int (length xs) \<le> ssize_max"
proof -
  from assms have "int (length xs) < int (2 ^ 60)"
    by (simp only: of_nat_less_iff)
  then have l: "int (length xs) \<le> 1152921504606846975"
    by simp
  have c: "int (calcsize c) \<le> 8"
    using calcsize_le_8 [of c] by simp
  have "int (length xs) * int (calcsize c) \<le> 1152921504606846975 * 8"
    using l c by (rule mult_mono) simp_all
  then show "int (length xs) * int (calcsize c) \<le> ssize_max"
    unfolding ssize_max_def by simp
  from l show "2 * int (length xs) \<le> ssize_max"
    unfolding ssize_max_def by simp
qed

section \<open>The binary decoder, split header\<close>

lemma b64encode_chars: "c \<in> set (b64encode bs) \<Longrightarrow> \<not> is_space c"
proof (induction bs arbitrary: c rule: b64encode.induct)
  case 1
  then show ?case by simp
next
  case (2 x)
  have b: "of_char x < (256::nat)" by simp
  note bd = sextets_bound [OF b b b]
  from 2 show ?case
    using b2a_not_space [OF bd(1)] b2a_not_space [OF bd(5)]
    by (auto simp: Let_def is_space_def)
next
  case (3 x y)
  have b: "of_char x < (256::nat)" "of_char y < (256::nat)" by simp_all
  note bd = sextets_bound [OF b b(2)]
  from 3 show ?case
    using b2a_not_space [OF bd(1)] b2a_not_space [OF bd(2)] b2a_not_space [OF bd(6)]
    by (auto simp: Let_def is_space_def)
next
  case (4 x y z r)
  have b: "of_char x < (256::nat)" "of_char y < (256::nat)" "of_char z < (256::nat)" by simp_all
  note bd = sextets_bound [OF b]
  from 4 show ?case
    using b2a_not_space [OF bd(1)] b2a_not_space [OF bd(2)] b2a_not_space [OF bd(3)]
      b2a_not_space [OF bd(4)]
    by (auto simp: Let_def)
qed

lemma dropWhile_no_match: "\<forall>c \<in> set s. \<not> P c \<Longrightarrow> dropWhile P s = s"
  by (cases s) simp_all

lemma strip_no_space:
  assumes "\<forall>c \<in> set s. \<not> is_space c"
  shows "strip s = s"
proof -
  from assms have "dropWhile is_space s = s" by (rule dropWhile_no_match)
  moreover from assms have "dropWhile is_space (rev s) = rev s"
    by (intro dropWhile_no_match) simp
  ultimately show ?thesis by (simp add: strip_def)
qed

lemma strip_b64encode2: "strip (b64encode a @ b64encode b) = b64encode a @ b64encode b"
  by (rule strip_no_space) (auto dest: b64encode_chars)

lemma header_size_eq:
  "length (b64encode (pack_zero h)) = length (b64encode (item_bytes bo h v))"
  by (simp add: length_b64encode pack_zero_def)


lemma decode_array_split:
  assumes "split_header self = Some True" "byteorder self = Some bo" "header_type self = Some h"
    and "\<not> is_float h"
    and "elem self = Some i" "attrib (elems self i) ''type'' = Some ty" "buffers ty = Some c"
    and "attrib (elems self i) ''format'' = Some ''binary''"
    and "list_all (in_range c) xs"
    and "in_range h (int (length (raw_bytes bo c xs)))"
    and "array_data self =
           b64encode (length_header bo h (raw_bytes bo c xs)) @ b64encode (raw_bytes bo c xs)"
    and "length xs < 2 ^ 60"
  shows "decode_array text_mode self = Inr (NDArray c [length xs] xs)"
proof -
  let ?raw = "raw_bytes bo c xs"
  let ?hdr = "length_header bo h ?raw"
  let ?n = "length (b64encode (pack_zero h))"
  note sz = small_array_sizes [OF assms(12)]
  have n: "?n = length (b64encode ?hdr)"
    unfolding length_header_def by (rule header_size_eq)
  have st: "strip (array_data self) = b64encode ?hdr @ b64encode ?raw"
    using assms(11) by (simp only: strip_b64encode2)
  have tk: "take ?n (strip (array_data self)) = b64encode ?hdr"
    unfolding st n by simp
  have dr: "drop ?n (strip (array_data self)) = b64encode ?raw"
    unfolding st n by simp
  have up: "unpack_from bo h ?hdr 0 = Inr (PyInt (int (length ?raw)))"
    using unpack_from_item_bytes [OF assms(4) assms(10), of bo "[]"]
    by (simp add: length_header_def)
  have qu: "quotient (PyInt (int (length ?raw))) (calcsize c) = Inr (int (length xs))"
    using quotient_byte_length [of xs c] by (simp add: length_raw_bytes)
  have rp: "repeat_length 2 (int (length xs)) = Inr (2 * length xs)"
    using repeat_length_small [of "int (length xs)" 2] sz(2) by simp
  have fs: "fromstring bo c ?raw (int (length xs)) = Inr (NDArray c [length xs] xs)"
    using fromstring_raw_bytes [OF assms(9) sz(1), of bo "[]"] by simp
  show ?thesis
    unfolding decode_array_def
    by (simp add: assms(1-3,5-8) getattr_def getitem_def tk dr b64decode_b64encode up qu rp fs)
qed

lemma number_of_components_cases:
  assumes "number_of_components a = Inr C"
  shows "a ''NumberOfComponents'' = None \<and> C = 0
         \<or> a ''NumberOfComponents'' = Some [] \<and> C = 0
         \<or> (\<exists>s. a ''NumberOfComponents'' = Some s \<and> int_literal s = Some C)"
  using assms
  by (auto simp: number_of_components_def py_int_def split: option.splits if_splits)

text \<open>
  Claim C5.  In a version 0.1 document (split header), for every byte order, every integer
  header type, every item type \<open>c\<close> and every array \<open>xs\<close> of items in the range of \<open>c\<close>
  whose byte length the header type can hold (and of fewer than \<open>2 ^ 60\<close> items, more than
  any machine holds): when the text of a binary \<^verbatim>\<open>DataArray\<close> is the base64 text of the
  length header followed by the base64 text of the raw bytes, each encoded on its own,
  \<^verbatim>\<open>handle_data_array\<close> succeeds and the element's payload is then the array of type \<open>c\<close>
  with exactly the items \<open>xs\<close>; nothing else of the state changes.  The array is flat when
  \<^verbatim>\<open>NumberOfComponents\<close> is absent, empty or at most 1, and has rows of \<open>C\<close> items when it is
  a number \<open>C > 1\<close> that divides the number of items.  The number of characters of the
  header's span is the length of the base64 text of a packed zero of the header type, and
  that many characters are exactly the header's base64 text.
\<close>

theorem binary_split_round_trip:
  assumes "split_header self = Some True" "byteorder self = Some bo" "header_type self = Some h"
    and "\<not> is_float h"
    and "elem self = Some i" "attrib (elems self i) ''type'' = Some ty" "buffers ty = Some c"
    and "attrib (elems self i) ''format'' = Some ''binary''"
    and "list_all (in_range c) xs"
    and "in_range h (int (length (raw_bytes bo c xs)))"
    and "array_data self =
           b64encode (length_header bo h (raw_bytes bo c xs)) @ b64encode (raw_bytes bo c xs)"
    and "length xs < 2 ^ 60"
    and "number_of_components (attrib (elems self i)) = Inr C"
    and "C \<le> 1 \<or> C dvd int (length xs)"
  shows "\<exists>s'. handle_data_array text_mode self = Inr s' \<and>
           text_slot (elems s' i)
             = Some (NDArray c (if 1 < C then [length xs div nat C, nat C] else [length xs]) xs) \<and>
           s' = self\<lparr> elems := (elems self)(i := (elems self i)\<lparr> text_slot :=
                  Some (NDArray c (if 1 < C then [length xs div nat C, nat C] else [length xs]) xs) \<rparr>) \<rparr> \<and>
           take (length (b64encode (pack_zero h))) (array_data self)
             = b64encode (length_header bo h (raw_bytes bo c xs))"
proof -
  let ?arr = "NDArray c (if 1 < C then [length xs div nat C, nat C] else [length xs]) xs"
  let ?s = "self\<lparr> elems := (elems self)(i := (elems self i)\<lparr> text_slot := Some ?arr \<rparr>) \<rparr>"
  have d: "decode_array text_mode self = Inr (NDArray c [length xs] xs)"
    using assms(1-12) by (rule decode_array_split)
  have r: "(if 1 < C then reshape (NDArray c [length xs] xs) C else Inr (NDArray c [length xs] xs))
             = Inr ?arr"
    using assms(14) by (auto simp: reshape_def dvd_eq_mod_eq_0)
  have h: "handle_data_array text_mode self = Inr ?s"
    unfolding handle_data_array_def d set_text_def
    by (simp only: seq_Inr assms(5,13) getattr_def option.case r)
  have "length (b64encode (pack_zero h))
          = length (b64encode (length_header bo h (raw_bytes bo c xs)))"
    unfolding length_header_def by (rule header_size_eq)
  then have t: "take (length (b64encode (pack_zero h))) (array_data self)
           = b64encode (length_header bo h (raw_bytes bo c xs))"
    by (simp add: assms(11))
  have e: "text_slot (elems ?s i) = Some ?arr"
    by simp
  from h e t show ?thesis
    by blast
qed

lemma split_example_state:
  "\<exists>s. split_example = Inr s \<and> array_data s = ''AAAABA==AAH//g=='' \<and>
     split_header s = Some True \<and> byteorder s = Some Big \<and> header_type s = Some Code_I \<and>
     elem s = Some 1 \<and> text_slot (elems s 1) = None \<and>
     attrib (elems s 1) = [''type'' \<mapsto> ''Int16'', ''format'' \<mapsto> ''binary'']"
  by (simp add: split_example_def start_def start_VTKFile_def start_DataArray_def data_def
       super_start_def init_def byteorders_def getitem_def getattr_def)

lemma to_little_numeral:
  "to_little (numeral k) v = char_of (v mod 256) # to_little (pred_numeral k) (v div 256)"
proof -
  have "to_little (numeral k) v = to_little (Suc (pred_numeral k)) v"
    by (simp only: numeral_eq_Suc)
  then show ?thesis
    by (simp only: to_little.simps)
qed

lemma items_from_numeral:
  "items_from bo c (numeral k) s =
     item_of bo c (take (calcsize c) s) # items_from bo c (pred_numeral k) (drop (calcsize c) s)"
proof -
  have "items_from bo c (numeral k) s = items_from bo c (Suc (pred_numeral k)) s"
    by (simp only: numeral_eq_Suc)
  then show ?thesis
    by (simp only: items_from.simps)
qed

lemma split_example_bytes:
  "raw_bytes Big Code_h [1, - 2] = [CHR 0x00, CHR 0x01, CHR 0xFF, CHR 0xFE]"
  "length_header Big Code_I [CHR 0x00, CHR 0x01, CHR 0xFF, CHR 0xFE]
     = [CHR 0x00, CHR 0x00, CHR 0x00, CHR 0x04]"
  by (simp_all add: raw_bytes_def length_header_def item_bytes_def bytes_of_def to_little_numeral
        char_of_eq_nat)

lemma split_example_text:
  "b64encode [CHR 0x00, CHR 0x00, CHR 0x00, CHR 0x04] @ b64encode [CHR 0x00, CHR 0x01, CHR 0xFF, CHR 0xFE]
     = ''AAAABA==AAH//g==''"
  by (simp add: b2a_def char_of_eq_nat)

theorem binary_split_round_trip_witness:
  "\<exists>s. split_example = Inr s \<and>
      array_data s = b64encode (length_header Big Code_I (raw_bytes Big Code_h [1, - 2]))
                       @ b64encode (raw_bytes Big Code_h [1, - 2]) \<and>
      list_all (in_range Code_h) [1, - 2] \<and>
      text_slot (elems s 1) = None \<and>
      (\<forall>text_mode. \<exists>s'. handle_data_array text_mode s = Inr s' \<and>
          text_slot (elems s' 1) = Some (NDArray Code_h [2] [1, - 2]))"
proof -
  from split_example_state obtain s where s: "split_example = Inr s"
    and a: "array_data s = ''AAAABA==AAH//g==''"
    and p: "split_header s = Some True" "byteorder s = Some Big" "header_type s = Some Code_I"
    and e: "elem s = Some 1"
    and t: "attrib (elems s 1) = [''type'' \<mapsto> ''Int16'', ''format'' \<mapsto> ''binary'']"
    and z: "text_slot (elems s 1) = None"
    by blast
  have enc: "array_data s = b64encode (length_header Big Code_I (raw_bytes Big Code_h [1, - 2]))
                       @ b64encode (raw_bytes Big Code_h [1, - 2])"
    by (simp only: a split_example_bytes split_example_text)
  have r: "list_all (in_range Code_h) [1, - 2]"
    by (simp add: in_range_def)
  have h: "in_range Code_I (int (length (raw_bytes Big Code_h [1, - 2])))"
    by (simp add: in_range_def split_example_bytes)
  have ty: "attrib (elems s 1) ''type'' = Some ''Int16''"
    and fm: "attrib (elems s 1) ''format'' = Some ''binary''"
    and nc: "number_of_components (attrib (elems s 1)) = Inr 0"
    unfolding t number_of_components_def by simp_all
  have bf: "buffers ''Int16'' = Some Code_h"
    by (simp add: buffers_def)
  have nf: "\<not> is_float Code_I"
    by simp
  have sm: "length [1, - 2 :: int] < 2 ^ 60"
    by simp
  have c: "(0::int) \<le> 1 \<or> 0 dvd int (length [1, - 2 :: int])"
    by simp
  have "\<exists>s'. handle_data_array text_mode s = Inr s' \<and>
          text_slot (elems s' 1) = Some (NDArray Code_h [2] [1, - 2])"
    for text_mode
    using binary_split_round_trip [OF p nf e ty bf fm r h enc sm nc c, of text_mode]
    by (simp add: numeral_2_eq_2)
  with s enc r z show ?thesis by blast
qed

section \<open>The binary decoder, combined header\<close>

lemma seq_fails: "(\<And>x. r = Inr x \<Longrightarrow> \<exists>e. f x = Inl e) \<Longrightarrow> \<exists>e. seq r f = Inl e"
  by (cases r) simp_all

lemma combined_header_never_decodes:
  assumes "split_header self = Some False" "elem self = Some i"
    and "attrib (elems self i) ''format'' = Some ''binary''"
  shows "\<exists>e. handle_data_array text_mode self = Inl e"
proof -
  have "\<exists>e. decode_array text_mode self = Inl e"
    unfolding decode_array_def
    by (auto intro!: seq_fails simp: assms getattr_def getitem_def)
  then show ?thesis
    by (auto simp: handle_data_array_def)
qed

lemma combined_example_state:
  "\<exists>s. combined_example = Inr s \<and> array_data s = ''AQAAACo='' \<and>
     split_header s = Some False \<and> byteorder s = Some Little \<and> header_type s = Some Code_I \<and>
     elem s = Some 1 \<and>
     attrib (elems s 1) = [''type'' \<mapsto> ''UInt8'', ''format'' \<mapsto> ''binary'']"
  by (simp add: combined_example_def start_def start_VTKFile_def start_DataArray_def data_def
       super_start_def init_def byteorders_def getitem_def getattr_def)

lemma combined_example_text:
  "b64encode (length_header Little Code_I (raw_bytes Little Code_B [42])
              @ raw_bytes Little Code_B [42]) = ''AQAAACo=''"
  by (simp add: raw_bytes_def length_header_def item_bytes_def bytes_of_def to_little_numeral
        b2a_def char_of_eq_nat)

lemma combined_example_header:
  "b64decode (take (length (b64encode (pack_zero Code_I))) (strip ''AQAAACo=''))
     = Inr [CHR 0x01, CHR 0x00, CHR 0x00, CHR 0x00, CHR 0x2A]"
proof -
  have "strip ''AQAAACo='' = ''AQAAACo=''"
    by (simp add: strip_def is_space_def)
  moreover have "length (b64encode (pack_zero Code_I)) = 8"
    by (simp add: length_b64encode pack_zero_def)
  moreover have "b64decode ''AQAAACo='' = Inr [CHR 0x01, CHR 0x00, CHR 0x00, CHR 0x00, CHR 0x2A]"
    by (simp add: b64decode_def table_a2b_def char_of_eq_nat)
  ultimately show ?thesis by simp
qed

text \<open>
  Claim C1.  The round trip through the combined header fails on the code: in a document
  whose version is not 0.1, \<^verbatim>\<open>handle_data_array\<close> on a binary array reaches line 114,
  which reads the local variable \<^verbatim>\<open>array_data\<close> before any assignment to it, and raises
  \<^verbatim>\<open>UnboundLocalError\<close>.  Here at the array [42] of type \<^verbatim>\<open>UInt8\<close> with its \<^verbatim>\<open>UInt32\<close>
  length header, little-endian; by \<open>combined_header_never_decodes\<close> no binary array of
  such a document is ever decoded.
\<close>

theorem binary_combined_unbound_local:
  "b64encode (length_header Little Code_I (raw_bytes Little Code_B [42])
              @ raw_bytes Little Code_B [42]) = ''AQAAACo='' \<and>
   (\<exists>s. combined_example = Inr s \<and>
      handle_data_array text_mode s
        = Inl (UnboundLocalError ''local variable 'array_data' referenced before assignment''))"
proof -
  from combined_example_state obtain s where s: "combined_example = Inr s"
    and a: "array_data s = ''AQAAACo=''"
    and p: "split_header s = Some False" "byteorder s = Some Little" "header_type s = Some Code_I"
    and e: "elem s = Some 1"
    and t: "attrib (elems s 1) = [''type'' \<mapsto> ''UInt8'', ''format'' \<mapsto> ''binary'']"
    by blast
  have ty: "attrib (elems s 1) ''type'' = Some ''UInt8''"
    and fm: "attrib (elems s 1) ''format'' = Some ''binary''"
    unfolding t by simp_all
  have bf: "buffers ''UInt8'' = Some Code_B"
    by (simp add: buffers_def)
  have up: "unpack_from Little Code_I [CHR 0x01, CHR 0x00, CHR 0x00, CHR 0x00, CHR 0x2A] 0
              = Inr (PyInt 1)"
    by (simp add: unpack_from_def as_ssize_def ssize_max_def item_of_def unsigned_of_def)
  have "decode_array text_mode s
          = Inl (UnboundLocalError ''local variable 'array_data' referenced before assignment'')"
    unfolding decode_array_def
    by (simp add: p e ty fm bf a getattr_def getitem_def combined_example_header up
          del: One_nat_def)
  then have "handle_data_array text_mode s
          = Inl (UnboundLocalError ''local variable 'array_data' referenced before assignment'')"
    by (simp add: handle_data_array_def)
  with s combined_example_text show ?thesis by blast
qed

section \<open>Reshaping\<close>

lemma length_rows_of [simp]: "length (rows_of n w xs) = n"
  by (induction n arbitrary: xs) simp_all

lemma concat_rows_of: "concat (rows_of n w xs) = take (n * w) xs"
proof (induction n arbitrary: xs)
  case 0
  show ?case by simp
next
  case (Suc n)
  have "take w xs @ take (n * w) (drop w xs) = take (w + n * w) xs"
    by (simp add: take_add)
  with Suc show ?case by simp
qed

lemma rows_of_widths:
  "n * w \<le> length xs \<Longrightarrow> list_all (\<lambda>row. length row = w) (rows_of n w xs)"
proof (induction n arbitrary: xs)
  case 0
  show ?case by simp
next
  case (Suc n)
  then have "w \<le> length xs" "n * w \<le> length (drop w xs)"
    by simp_all
  with Suc.IH [of "drop w xs"] show ?case by simp
qed

lemma int_literal_Nil: "int_literal [] = None"
  by (simp add: int_literal_def)

lemma number_of_components_Some:
  assumes "a ''NumberOfComponents'' = Some s" "int_literal s = Some C"
  shows "number_of_components a = Inr C"
proof -
  from assms(2) have "s \<noteq> []"
    using int_literal_Nil by auto
  with assms show ?thesis
    by (simp add: number_of_components_def py_int_def)
qed

text \<open>
  The reshape of \<^verbatim>\<open>handle_data_array\<close> (lines 120 to 123).  When the flat array decoded
  for a \<^verbatim>\<open>DataArray\<close> has \<open>L\<close> items and the \<^verbatim>\<open>NumberOfComponents\<close> attribute is an integer
  \<open>C > 1\<close>: if \<open>C\<close> divides \<open>L\<close>, the element's payload becomes the array of shape
  \<open>[L div C, C]\<close> over the same items in row-major order, that is \<open>L div C\<close> rows of \<open>C\<close>
  items each whose concatenation is the flat array; if \<open>C\<close> does not divide \<open>L\<close>, the
  decoder fails with the \<^verbatim>\<open>ValueError\<close> of \<^verbatim>\<open>reshape\<close> and nothing is assigned.
\<close>

lemma reshape_rows:
  assumes "decode_array text_mode self = Inr flat" "elem self = Some i"
    and "attrib (elems self i) ''NumberOfComponents'' = Some s" "int_literal s = Some C"
    and "1 < C"
  shows "(C dvd int (length (items flat)) \<longrightarrow>
            (\<exists>s'. handle_data_array text_mode self = Inr s' \<and>
               text_slot (elems s' i)
                 = Some (NDArray (dtype flat) [length (items flat) div nat C, nat C]
                          (items flat))) \<and>
            length (rows_of (length (items flat) div nat C) (nat C) (items flat))
              = length (items flat) div nat C \<and>
            list_all (\<lambda>row. length row = nat C)
              (rows_of (length (items flat) div nat C) (nat C) (items flat)) \<and>
            concat (rows_of (length (items flat) div nat C) (nat C) (items flat)) = items flat) \<and>
         (\<not> C dvd int (length (items flat)) \<longrightarrow>
            handle_data_array text_mode self
              = Inl (ValueError ''total size of new array must be unchanged''))"
proof -
  let ?L = "length (items flat)"
  have nc: "number_of_components (attrib (elems self i)) = Inr C"
    using assms(3,4) by (rule number_of_components_Some)
  have h: "handle_data_array text_mode self =
      seq (reshape flat C) (\<lambda>arr. Inr (self\<lparr> elems := set_text (elems self) i arr \<rparr>))"
    using assms(5) by (simp add: handle_data_array_def assms(1,2) nc getattr_def)
  have d: "(int ?L mod C = 0) = (C dvd int ?L)"
    by (simp add: dvd_eq_mod_eq_0)
  show ?thesis
  proof (intro conjI impI)
    assume c: "C dvd int ?L"
    with d have "handle_data_array text_mode self
              = Inr (self\<lparr> elems := set_text (elems self) i
                      (NDArray (dtype flat) [?L div nat C, nat C] (items flat)) \<rparr>)"
      by (simp add: h reshape_def)
    then show "\<exists>s'. handle_data_array text_mode self = Inr s' \<and>
               text_slot (elems s' i)
                 = Some (NDArray (dtype flat) [?L div nat C, nat C] (items flat))"
      by (simp add: set_text_def)
    from c assms(5) have "nat C dvd ?L"
      by (simp add: nat_dvd_iff)
    then have e: "?L div nat C * nat C = ?L"
      by simp
    show "length (rows_of (?L div nat C) (nat C) (items flat)) = ?L div nat C"
      by simp
    show "list_all (\<lambda>row. length row = nat C) (rows_of (?L div nat C) (nat C) (items flat))"
      by (rule rows_of_widths) (simp add: e)
    show "concat (rows_of (?L div nat C) (nat C) (items flat)) = items flat"
      by (simp add: concat_rows_of e)
  next
    assume "\<not> C dvd int ?L"
    with d show "handle_data_array text_mode self
              = Inl (ValueError ''total size of new array must be unchanged'')"
      by (simp add: h reshape_def)
  qed
qed

lemma reshape_example_state:
  "\<exists>s. reshape_example nc = Inr s \<and> array_data s = ''AAAACA==AAH//gADAAQ='' \<and>
     split_header s = Some True \<and> byteorder s = Some Big \<and> header_type s = Some Code_I \<and>
     elem s = Some 1 \<and>
     attrib (elems s 1) = [''type'' \<mapsto> ''Int16'', ''format'' \<mapsto> ''binary'',
                           ''NumberOfComponents'' \<mapsto> nc]"
  by (simp add: reshape_example_def start_def start_VTKFile_def start_DataArray_def data_def
       super_start_def init_def byteorders_def getitem_def getattr_def)

lemma reshape_example_bytes:
  "raw_bytes Big Code_h [1, - 2, 3, 4]
     = [CHR 0x00, CHR 0x01, CHR 0xFF, CHR 0xFE, CHR 0x00, CHR 0x03, CHR 0x00, CHR 0x04]"
  "length_header Big Code_I
     [CHR 0x00, CHR 0x01, CHR 0xFF, CHR 0xFE, CHR 0x00, CHR 0x03, CHR 0x00, CHR 0x04]
     = [CHR 0x00, CHR 0x00, CHR 0x00, CHR 0x08]"
  by (simp_all add: raw_bytes_def length_header_def item_bytes_def bytes_of_def to_little_numeral
        char_of_eq_nat)

lemma reshape_example_text:
  "b64encode [CHR 0x00, CHR 0x00, CHR 0x00, CHR 0x08]
     @ b64encode [CHR 0x00, CHR 0x01, CHR 0xFF, CHR 0xFE, CHR 0x00, CHR 0x03, CHR 0x00, CHR 0x04]
     = ''AAAACA==AAH//gADAAQ=''"
  by (simp add: b2a_def char_of_eq_nat)

lemma reshape_example_decode:
  assumes "reshape_example nc = Inr s"
  shows "decode_array text_mode s = Inr (NDArray Code_h [4] [1, - 2, 3, 4])"
    and "elem s = Some 1"
    and "attrib (elems s 1) ''NumberOfComponents'' = Some nc"
proof -
  from reshape_example_state [of nc] assms have a: "array_data s = ''AAAACA==AAH//gADAAQ=''"
    and p: "split_header s = Some True" "byteorder s = Some Big" "header_type s = Some Code_I"
    and e: "elem s = Some 1"
    and t: "attrib (elems s 1) = [''type'' \<mapsto> ''Int16'', ''format'' \<mapsto> ''binary'',
                           ''NumberOfComponents'' \<mapsto> nc]"
    by auto
  have ty: "attrib (elems s 1) ''type'' = Some ''Int16''"
    and fm: "attrib (elems s 1) ''format'' = Some ''binary''"
    unfolding t by simp_all
  show "attrib (elems s 1) ''NumberOfComponents'' = Some nc"
    unfolding t by simp
  show "elem s = Some 1" by (rule e)
  have bf: "buffers ''Int16'' = Some Code_h"
    by (simp add: buffers_def)
  have nf: "\<not> is_float Code_I"
    by simp
  have enc: "array_data s = b64encode (length_header Big Code_I (raw_bytes Big Code_h [1, - 2, 3, 4]))
                       @ b64encode (raw_bytes Big Code_h [1, - 2, 3, 4])"
    by (simp only: a reshape_example_bytes reshape_example_text)
  have r: "list_all (in_range Code_h) [1, - 2, 3, 4]"
    by (simp add: in_range_def)
  have h: "in_range Code_I (int (length (raw_bytes Big Code_h [1, - 2, 3, 4])))"
    by (simp add: in_range_def reshape_example_bytes)
  have sm: "length [1, - 2, 3, 4 :: int] < 2 ^ 60"
    by simp
  show "decode_array text_mode s = Inr (NDArray Code_h [4] [1, - 2, 3, 4])"
    using decode_array_split [OF p nf e ty bf fm r h enc sm, of text_mode] by simp
qed

lemma int_literal_examples: "int_literal ''2'' = Some 2" "int_literal ''3'' = Some 3"
  by (simp_all add: int_literal_def is_space_def is_digit_def digits_value_def)

lemma reshape_example_rows:
  "(\<exists>s. reshape_example ''2'' = Inr s \<and>
      (\<forall>text_mode. \<exists>s'. handle_data_array text_mode s = Inr s' \<and>
         text_slot (elems s' 1) = Some (NDArray Code_h [2, 2] [1, - 2, 3, 4])) \<and>
      rows_of 2 2 [1, - 2, 3, 4 :: int] = [[1, - 2], [3, 4]]) \<and>
   (\<exists>s. reshape_example ''3'' = Inr s \<and>
      (\<forall>text_mode. handle_data_array text_mode s
         = Inl (ValueError ''total size of new array must be unchanged'')))"
proof -
  obtain s2 where s2: "reshape_example ''2'' = Inr s2"
    using reshape_example_state [of "''2''"] by blast
  obtain s3 where s3: "reshape_example ''3'' = Inr s3"
    using reshape_example_state [of "''3''"] by blast
  have a: "\<exists>s'. handle_data_array text_mode s2 = Inr s' \<and>
         text_slot (elems s' 1) = Some (NDArray Code_h [2, 2] [1, - 2, 3, 4])"
    for text_mode
    using reshape_rows [OF reshape_example_decode [OF s2] int_literal_examples(1), of text_mode]
    by (simp add: numeral_2_eq_2 [symmetric])
  have b: "handle_data_array text_mode s3
         = Inl (ValueError ''total size of new array must be unchanged'')"
    for text_mode
    using reshape_rows [OF reshape_example_decode [OF s3] int_literal_examples(2), of text_mode]
    by simp
  have c: "rows_of 2 2 [1, - 2, 3, 4 :: int] = [[1, - 2], [3, 4]]"
    by (simp add: numeral_2_eq_2)
  from s2 s3 a b c show ?thesis by blast
qed

section \<open>The resolver of appended data\<close>

lemma resolve_append:
  "resolve native bo h raw es (pre @ rs)
     = seq (resolve native bo h raw es pre) (\<lambda>es'. resolve native bo h raw es' rs)"
proof (induction pre arbitrary: es)
  case Nil
  show ?case by simp
next
  case (Cons r pre)
  obtain offset ty parent where r: "r = (offset, ty, parent)"
    by (cases r)
  show ?case
    unfolding r
    by (auto simp: Cons.IH seq_def split: sum.splits)
qed

lemma unpack_from_overflow:
  "ssize_max < offset \<Longrightarrow>
     unpack_from bo h raw offset = Inl (OverflowError ''long int too large to convert to int'')"
  by (simp add: unpack_from_def as_ssize_Inl)

lemma unpack_from_past_end:
  assumes "0 \<le> offset" "offset \<le> ssize_max" "int (length raw) - offset < int (calcsize h)"
  shows "unpack_from bo h raw offset
           = Inl (StructError ''unpack_from requires a buffer of at least the size of the format'')"
proof -
  from assms(1) ssize_max_pos have "- ssize_max - 1 \<le> offset"
    by simp
  then have "as_ssize offset = Inr offset"
    using assms(2) by (rule as_ssize_Inr)
  with assms(1,3) show ?thesis
    by (simp add: unpack_from_def)
qed

lemma unpack_from_Inr_bounds:
  assumes "unpack_from bo h raw offset = Inr datalen" "0 \<le> offset"
  shows "offset \<le> ssize_max" "\<not> int (length raw) - offset < int (calcsize h)"
proof -
  show o: "offset \<le> ssize_max"
  proof (rule ccontr)
    assume "\<not> offset \<le> ssize_max"
    then have "ssize_max < offset" by simp
    from unpack_from_overflow [OF this] assms(1) show False by simp
  qed
  show "\<not> int (length raw) - offset < int (calcsize h)"
  proof
    assume "int (length raw) - offset < int (calcsize h)"
    from unpack_from_past_end [OF assms(2) o this] assms(1) show False by simp
  qed
qed

lemma length_slice_from:
  assumes "0 \<le> k" "k \<le> int (length s)"
  shows "int (length (slice_from s k)) = int (length s) - k"
  using assms by (simp add: slice_from_def)

lemma fromstring_overflow:
  "ssize_max < n \<Longrightarrow>
     fromstring bo c s n = Inl (OverflowError ''long int too large to convert to int'')"
  by (simp add: fromstring_def as_ssize_Inl)

lemma fromstring_past_end:
  assumes "0 \<le> n" "n * int (calcsize c) \<le> ssize_max" "int (length s) < n * int (calcsize c)"
  shows "fromstring bo c s n = Inl (ValueError ''string is smaller than requested size'')"
  using assms(3) by (simp add: fromstring_in_range [OF assms(1,2)])

lemma fromstring_past_end_wrapped:
  assumes "0 \<le> n" "n \<le> ssize_max" "int (length s) < n * int (calcsize c)"
  shows "fromstring bo c s n = Inl (ValueError ''string is smaller than requested size'')
         \<or> fromstring bo c s n = Inl (ValueError ''array is too big.'')"
proof (cases "n * int (calcsize c) \<le> ssize_max")
  case True
  with assms(1) have "fromstring bo c s n = Inl (ValueError ''string is smaller than requested size'')"
    using assms(3) by (rule fromstring_past_end)
  then show ?thesis ..
next
  case False
  from assms(1) ssize_max_pos have "- ssize_max - 1 \<le> n"
    by simp
  then have a: "as_ssize n = Inr n"
    using assms(2) by (rule as_ssize_Inr)
  from False assms(1) show ?thesis
    by (simp add: fromstring_def a)
qed

lemma resolve_first_overflow:
  assumes "ssize_max < offset"
  shows "resolve native bo h raw es ((offset, ty, parent) # rs)
           = Inl (OverflowError ''long int too large to convert to int'')"
  by (simp add: unpack_from_overflow [OF assms])

lemma resolve_first_header:
  assumes "0 \<le> offset" "offset \<le> ssize_max" "int (length raw) - offset < int (calcsize h)"
  shows "resolve native bo h raw es ((offset, ty, parent) # rs)
           = Inl (StructError ''unpack_from requires a buffer of at least the size of the format'')"
  by (simp add: unpack_from_past_end [OF assms])

lemma slice_after_header:
  assumes "unpack_from bo h raw offset = Inr datalen" "0 \<le> offset"
  shows "int (length (slice_from raw (offset + int (calcsize h))))
           = int (length raw) - offset - int (calcsize h)"
proof -
  from unpack_from_Inr_bounds(2) [OF assms]
  have "offset + int (calcsize h) \<le> int (length raw)"
    by simp
  with assms(2) have "int (length (slice_from raw (offset + int (calcsize h))))
      = int (length raw) - (offset + int (calcsize h))"
    by (intro length_slice_from) simp_all
  then show ?thesis by simp
qed

lemma resolve_first_items:
  assumes "unpack_from bo h raw offset = Inr datalen" "buffers ty = Some c"
    and "quotient datalen (calcsize c) = Inr n" "0 \<le> offset"
  shows "resolve native bo h raw es ((offset, ty, parent) # rs)
           = seq (fromstring native c (slice_from raw (offset + int (calcsize h))) n)
               (\<lambda>arr. resolve native bo h raw (set_text es parent arr) rs)"
  using assms(1-3) by (simp add: getitem_def)

lemma resolve_first_items_past_end:
  assumes "unpack_from bo h raw offset = Inr datalen" "buffers ty = Some c"
    and "quotient datalen (calcsize c) = Inr n" "0 \<le> offset"
    and "0 \<le> n" "n * int (calcsize c) \<le> ssize_max"
    and "int (length raw) - offset - int (calcsize h) < n * int (calcsize c)"
  shows "resolve native bo h raw es ((offset, ty, parent) # rs)
           = Inl (ValueError ''string is smaller than requested size'')"
proof -
  have "fromstring native c (slice_from raw (offset + int (calcsize h))) n
      = Inl (ValueError ''string is smaller than requested size'')"
    using assms(5,6) by (rule fromstring_past_end) (simp add: slice_after_header [OF assms(1,4)] assms(7))
  then show ?thesis
    unfolding resolve_first_items [OF assms(1-4)] by simp
qed

lemma resolve_first_past_end:
  assumes "0 \<le> offset"
    and "int (length raw) - offset < int (calcsize h) \<or>
         (\<exists>datalen c n. unpack_from bo h raw offset = Inr datalen \<and> buffers ty = Some c \<and>
            quotient datalen (calcsize c) = Inr n \<and> 0 \<le> n \<and>
            int (length raw) - offset - int (calcsize h) < n * int (calcsize c))"
  shows "resolve native bo h raw es ((offset, ty, parent) # rs)
           = Inl (StructError ''unpack_from requires a buffer of at least the size of the format'')
         \<or> resolve native bo h raw es ((offset, ty, parent) # rs)
           = Inl (ValueError ''string is smaller than requested size'')
         \<or> resolve native bo h raw es ((offset, ty, parent) # rs)
           = Inl (ValueError ''array is too big.'')
         \<or> resolve native bo h raw es ((offset, ty, parent) # rs)
           = Inl (OverflowError ''long int too large to convert to int'')"
proof (cases "ssize_max < offset")
  case True
  then show ?thesis
    by (simp only: resolve_first_overflow simp_thms)
next
  case False
  then have o: "offset \<le> ssize_max" by simp
  from assms(2) show ?thesis
  proof
    assume "int (length raw) - offset < int (calcsize h)"
    with assms(1) o show ?thesis
      by (simp only: resolve_first_header simp_thms)
  next
    assume "\<exists>datalen c n. unpack_from bo h raw offset = Inr datalen \<and> buffers ty = Some c \<and>
            quotient datalen (calcsize c) = Inr n \<and> 0 \<le> n \<and>
            int (length raw) - offset - int (calcsize h) < n * int (calcsize c)"
    then obtain datalen c n where u: "unpack_from bo h raw offset = Inr datalen"
      and b: "buffers ty = Some c" and q: "quotient datalen (calcsize c) = Inr n"
      and n: "0 \<le> n" "int (length raw) - offset - int (calcsize h) < n * int (calcsize c)"
      by blast
    note r = resolve_first_items [OF u b q assms(1), of native es parent rs]
    show ?thesis
    proof (cases "ssize_max < n")
      case True
      show ?thesis
        unfolding r by (simp add: fromstring_overflow [OF True])
    next
      case False
      then have "n \<le> ssize_max" by simp
      with n(1) have "fromstring native c (slice_from raw (offset + int (calcsize h))) n
             = Inl (ValueError ''string is smaller than requested size'')
         \<or> fromstring native c (slice_from raw (offset + int (calcsize h))) n
             = Inl (ValueError ''array is too big.'')"
        by (rule fromstring_past_end_wrapped) (simp add: slice_after_header [OF u assms(1)] n(2))
      then show ?thesis
        unfolding r by auto
    qed
  qed
qed

lemma handle_appended_data_resolve:
  assumes "b64decode (array_data self) = Inr raw" "byteorder self = Some bo"
    and "header_type self = Some h"
  shows "handle_appended_data native self =
      seq (resolve native bo h raw (elems self) (appended_data_arrays self))
        (\<lambda>es. Inr (self\<lparr> elems := es \<rparr>))"
  by (simp add: handle_appended_data_def assms getattr_def)

text \<open>
  Claim C7.  When the \<^verbatim>\<open>AppendedData\<close> element closes and the queue holds a registration
  with an offset \<open>0 \<le> offset\<close> whose header read, or whose read of the items the header
  announces, would pass the end of the decoded blob, \<^verbatim>\<open>handle_appended_data\<close> fails.  When
  the registrations before it resolve (in particular when it is the first one), the
  failure is the one of that registration's own read, the program having no error class of
  its own: \<^verbatim>\<open>struct.error\<close> when the header does not fit (an offset of the blob's length
  plus one is this case), NumPy's \<^verbatim>\<open>ValueError\<close> when the items do not fit, and
  \<^verbatim>\<open>OverflowError\<close> when the offset or the number of items is beyond a \<^verbatim>\<open>Py_ssize_t\<close>.
\<close>

theorem appended_offset_past_end:
  assumes "b64decode (array_data self) = Inr raw" "byteorder self = Some bo"
    and "header_type self = Some h"
    and "appended_data_arrays self = pre @ (offset, ty, parent) # rs"
    and "0 \<le> offset"
    and "int (length raw) - offset < int (calcsize h) \<or>
         (\<exists>datalen c n. unpack_from bo h raw offset = Inr datalen \<and> buffers ty = Some c \<and>
            quotient datalen (calcsize c) = Inr n \<and> 0 \<le> n \<and>
            int (length raw) - offset - int (calcsize h) < n * int (calcsize c))"
  shows "(\<exists>e. handle_appended_data native self = Inl e) \<and>
         (\<forall>es. resolve native bo h raw (elems self) pre = Inr es \<longrightarrow>
            (handle_appended_data native self
               = Inl (StructError ''unpack_from requires a buffer of at least the size of the format'')
             \<or> handle_appended_data native self
               = Inl (ValueError ''string is smaller than requested size'')
             \<or> handle_appended_data native self = Inl (ValueError ''array is too big.'')
             \<or> handle_appended_data native self
               = Inl (OverflowError ''long int too large to convert to int'')) \<and>
            (offset \<le> ssize_max \<and> int (length raw) - offset < int (calcsize h) \<longrightarrow>
               handle_appended_data native self
                 = Inl (StructError
                     ''unpack_from requires a buffer of at least the size of the format'')) \<and>
            (\<forall>datalen c n. unpack_from bo h raw offset = Inr datalen \<and> buffers ty = Some c \<and>
               quotient datalen (calcsize c) = Inr n \<and> 0 \<le> n \<and>
               n * int (calcsize c) \<le> ssize_max \<and>
               int (length raw) - offset - int (calcsize h) < n * int (calcsize c) \<longrightarrow>
               handle_appended_data native self
                 = Inl (ValueError ''string is smaller than requested size'')) \<and>
            (ssize_max < offset \<longrightarrow>
               handle_appended_data native self
                 = Inl (OverflowError ''long int too large to convert to int'')))"
proof -
  let ?r = "(offset, ty, parent)"
  have h: "handle_appended_data native self =
      seq (seq (resolve native bo h raw (elems self) pre)
             (\<lambda>es. resolve native bo h raw es (?r # rs)))
        (\<lambda>es. Inr (self\<lparr> elems := es \<rparr>))"
    unfolding handle_appended_data_resolve [OF assms(1-3)] assms(4) resolve_append ..
  have f: "resolve native bo h raw es (?r # rs)
           = Inl (StructError ''unpack_from requires a buffer of at least the size of the format'')
         \<or> resolve native bo h raw es (?r # rs)
           = Inl (ValueError ''string is smaller than requested size'')
         \<or> resolve native bo h raw es (?r # rs) = Inl (ValueError ''array is too big.'')
         \<or> resolve native bo h raw es (?r # rs)
           = Inl (OverflowError ''long int too large to convert to int'')" for es
    using assms(5,6) by (rule resolve_first_past_end)
  have 1: "\<exists>e. handle_appended_data native self = Inl e"
  proof (cases "resolve native bo h raw (elems self) pre")
    case (Inl e)
    then show ?thesis unfolding h by simp
  next
    case (Inr es)
    with f [of es] show ?thesis unfolding h by auto
  qed
  show ?thesis
  proof (intro conjI allI impI)
    show "\<exists>e. handle_appended_data native self = Inl e" by (rule 1)
  next
    fix es assume p: "resolve native bo h raw (elems self) pre = Inr es"
    have "handle_appended_data native self = Inl e"
      if "resolve native bo h raw es (?r # rs) = Inl e" for e
      using p that unfolding h by simp
    with f [of es] show "handle_appended_data native self
               = Inl (StructError ''unpack_from requires a buffer of at least the size of the format'')
             \<or> handle_appended_data native self
               = Inl (ValueError ''string is smaller than requested size'')
             \<or> handle_appended_data native self = Inl (ValueError ''array is too big.'')
             \<or> handle_appended_data native self
               = Inl (OverflowError ''long int too large to convert to int'')"
      by blast
  next
    fix es assume p: "resolve native bo h raw (elems self) pre = Inr es"
    assume "offset \<le> ssize_max \<and> int (length raw) - offset < int (calcsize h)"
    then have "resolve native bo h raw es (?r # rs)
        = Inl (StructError ''unpack_from requires a buffer of at least the size of the format'')"
      using assms(5) by (intro resolve_first_header) simp_all
    with p show "handle_appended_data native self
        = Inl (StructError ''unpack_from requires a buffer of at least the size of the format'')"
      unfolding h by simp
  next
    fix es datalen c n assume p: "resolve native bo h raw (elems self) pre = Inr es"
    assume a: "unpack_from bo h raw offset = Inr datalen \<and> buffers ty = Some c \<and>
               quotient datalen (calcsize c) = Inr n \<and> 0 \<le> n \<and>
               n * int (calcsize c) \<le> ssize_max \<and>
               int (length raw) - offset - int (calcsize h) < n * int (calcsize c)"
    then have "resolve native bo h raw es (?r # rs)
        = Inl (ValueError ''string is smaller than requested size'')"
      using assms(5) by (intro resolve_first_items_past_end [where datalen = datalen and c = c and n = n]) simp_all
    with p show "handle_appended_data native self
        = Inl (ValueError ''string is smaller than requested size'')"
      unfolding h by simp
  next
    fix es assume p: "resolve native bo h raw (elems self) pre = Inr es"
    assume "ssize_max < offset"
    then have "resolve native bo h raw es (?r # rs)
        = Inl (OverflowError ''long int too large to convert to int'')"
      by (rule resolve_first_overflow)
    with p show "handle_appended_data native self
        = Inl (OverflowError ''long int too large to convert to int'')"
      unfolding h by simp
  qed
qed

lemma appended_example_one:
  assumes "byteorders b = Some bo" "int_literal off = Some n"
  shows "\<exists>s. appended_example b [(ty, off)] content = Inr s \<and> array_data s = content \<and>
     byteorder s = Some bo \<and> header_type s = Some Code_I \<and>
     appended_data_arrays s = [(n, ty, 1)] \<and> text_slot (elems s 1) = None"
  using assms
  by (simp add: appended_example_def start_def start_VTKFile_def start_DataArray_def data_def
       super_start_def init_def getitem_def getattr_def py_int_def)

lemma blob_example: "b64decode ''AgAAACor'' = Inr [CHR 0x02, CHR 0x00, CHR 0x00, CHR 0x00, CHR 0x2A, CHR 0x2B]"
  by (simp add: b64decode_def table_a2b_def char_of_eq_nat)

lemma int_literal_six: "int_literal ''6'' = Some 6"
  by (simp add: int_literal_def is_space_def is_digit_def digits_value_def)

lemma appended_example_two:
  assumes "byteorders b = Some bo" "int_literal off1 = Some n1" "int_literal off2 = Some n2"
  shows "\<exists>s. appended_example b [(ty1, off1), (ty2, off2)] content = Inr s \<and>
     array_data s = content \<and> byteorder s = Some bo \<and> header_type s = Some Code_I \<and>
     appended_data_arrays s = [(n1, ty1, 1), (n2, ty2, 2)]"
  using assms
  by (simp add: appended_example_def start_def start_VTKFile_def start_DataArray_def data_def
       super_start_def init_def getitem_def getattr_def py_int_def)

lemma int_literal_offsets: "int_literal ''7'' = Some 7" "int_literal ''1'' = Some 1"
  "int_literal ''0'' = Some 0"
  by (simp_all add: int_literal_def is_space_def is_digit_def digits_value_def)

lemma int_literal_beyond_ssize:
  "int_literal ''9223372036854775808'' = Some (ssize_max + 1)"
  by (simp add: int_literal_def is_space_def is_digit_def digits_value_def ssize_max_def)

lemma byteorders_values: "byteorders ''LittleEndian'' = Some Little"
  "byteorders ''BigEndian'' = Some Big"
  by (simp_all add: byteorders_def)

lemma one_array_resolve:
  "resolve native Little Code_I
     [CHR 0x02, CHR 0x00, CHR 0x00, CHR 0x00, CHR 0x2A, CHR 0x2B] es [(0, ''UInt8'', p)]
   = Inr (set_text es p (NDArray Code_B [2] [42, 43]))"
  by (cases native)
     (simp_all add: unpack_from_def as_ssize_def ssize_max_def wrap_ssize_def item_of_def
        unsigned_of_def getitem_def buffers_def quotient_def fromstring_def slice_from_def
        items_from_numeral)

theorem appended_offset_past_end_witness:
  "(\<exists>s. appended_example ''LittleEndian'' [(''UInt8'', ''7'')] ''AgAAACor'' = Inr s \<and>
      b64decode (array_data s) = Inr [CHR 0x02, CHR 0x00, CHR 0x00, CHR 0x00, CHR 0x2A, CHR 0x2B] \<and>
      appended_data_arrays s = [(7, ''UInt8'', 1)] \<and>
      (\<forall>native. handle_appended_data native s
         = Inl (StructError ''unpack_from requires a buffer of at least the size of the format''))) \<and>
   (\<exists>s. appended_example ''LittleEndian'' [(''UInt8'', ''1'')] ''AgAAACor'' = Inr s \<and>
      appended_data_arrays s = [(1, ''UInt8'', 1)] \<and>
      (\<forall>native. handle_appended_data native s
         = Inl (ValueError ''string is smaller than requested size''))) \<and>
   (\<exists>s. appended_example ''LittleEndian'' [(''UInt8'', ''9223372036854775808'')] ''AgAAACor''
         = Inr s \<and>
      appended_data_arrays s = [(ssize_max + 1, ''UInt8'', 1)] \<and>
      (\<forall>native. handle_appended_data native s
         = Inl (OverflowError ''long int too large to convert to int''))) \<and>
   (\<exists>s. appended_example ''LittleEndian'' [(''UInt8'', ''0''), (''UInt8'', ''7'')] ''AgAAACor''
         = Inr s \<and>
      appended_data_arrays s = [(0, ''UInt8'', 1), (7, ''UInt8'', 2)] \<and>
      (\<forall>native. handle_appended_data native s
         = Inl (StructError ''unpack_from requires a buffer of at least the size of the format'')))"
proof -
  let ?raw = "[CHR 0x02, CHR 0x00, CHR 0x00, CHR 0x00, CHR 0x2A, CHR 0x2B]"
  let ?struct = "StructError ''unpack_from requires a buffer of at least the size of the format''"
  obtain s where s: "appended_example ''LittleEndian'' [(''UInt8'', ''7'')] ''AgAAACor'' = Inr s"
    and a: "array_data s = ''AgAAACor''" and p: "byteorder s = Some Little" "header_type s = Some Code_I"
    and q: "appended_data_arrays s = [] @ (7, ''UInt8'', 1) # []"
    using appended_example_one [OF byteorders_values(1) int_literal_offsets(1)] by fastforce
  have d: "b64decode (array_data s) = Inr ?raw"
    by (simp only: a blob_example)
  have past: "int (length ?raw) - 7 < int (calcsize Code_I) \<or>
         (\<exists>datalen c n. unpack_from Little Code_I ?raw 7 = Inr datalen \<and> buffers ''UInt8'' = Some c \<and>
            quotient datalen (calcsize c) = Inr n \<and> 0 \<le> n \<and>
            int (length ?raw) - 7 - int (calcsize Code_I) < n * int (calcsize c))"
    by simp
  have 1: "handle_appended_data native s = Inl ?struct" for native
    using appended_offset_past_end [OF d p q _ past, of native]
    by (simp add: ssize_max_def)
  obtain t where t: "appended_example ''LittleEndian'' [(''UInt8'', ''1'')] ''AgAAACor'' = Inr t"
    and a': "array_data t = ''AgAAACor''" and p': "byteorder t = Some Little" "header_type t = Some Code_I"
    and q': "appended_data_arrays t = [] @ (1, ''UInt8'', 1) # []"
    using appended_example_one [OF byteorders_values(1) int_literal_offsets(2)] by fastforce
  have d': "b64decode (array_data t) = Inr ?raw"
    by (simp only: a' blob_example)
  have u: "unpack_from Little Code_I ?raw 1 = Inr (PyInt 704643072)"
    by (simp add: unpack_from_def as_ssize_def ssize_max_def item_of_def unsigned_of_def)
  have b: "buffers ''UInt8'' = Some Code_B"
    by (simp add: buffers_def)
  have past': "int (length ?raw) - 1 < int (calcsize Code_I) \<or>
         (\<exists>datalen c n. unpack_from Little Code_I ?raw 1 = Inr datalen \<and> buffers ''UInt8'' = Some c \<and>
            quotient datalen (calcsize c) = Inr n \<and> 0 \<le> n \<and>
            int (length ?raw) - 1 - int (calcsize Code_I) < n * int (calcsize c))"
    by (simp add: u b quotient_def)
  have 2: "handle_appended_data native t
         = Inl (ValueError ''string is smaller than requested size'')"
    for native
    using appended_offset_past_end [OF d' p' q' _ past', of native]
    by (simp add: u b quotient_def ssize_max_def)
  obtain v where v: "appended_example ''LittleEndian'' [(''UInt8'', ''9223372036854775808'')]
        ''AgAAACor'' = Inr v"
    and a'': "array_data v = ''AgAAACor''"
    and p'': "byteorder v = Some Little" "header_type v = Some Code_I"
    and q'': "appended_data_arrays v = [] @ (ssize_max + 1, ''UInt8'', 1) # []"
    using appended_example_one [OF byteorders_values(1) int_literal_beyond_ssize] by fastforce
  have d'': "b64decode (array_data v) = Inr ?raw"
    by (simp only: a'' blob_example)
  have o'': "0 \<le> ssize_max + 1"
    by (simp add: ssize_max_def)
  have past'': "int (length ?raw) - (ssize_max + 1) < int (calcsize Code_I) \<or>
         (\<exists>datalen c n. unpack_from Little Code_I ?raw (ssize_max + 1) = Inr datalen \<and>
            buffers ''UInt8'' = Some c \<and>
            quotient datalen (calcsize c) = Inr n \<and> 0 \<le> n \<and>
            int (length ?raw) - (ssize_max + 1) - int (calcsize Code_I) < n * int (calcsize c))"
    by (simp add: ssize_max_def)
  have 3: "handle_appended_data native v
         = Inl (OverflowError ''long int too large to convert to int'')"
    for native
    using appended_offset_past_end [OF d'' p'' q'' o'' past'', of native]
    by simp
  have z: "int_literal ''0'' = Some 0"
    by (rule int_literal_offsets)
  obtain w where w: "appended_example ''LittleEndian'' [(''UInt8'', ''0''), (''UInt8'', ''7'')]
        ''AgAAACor'' = Inr w"
    and aw: "array_data w = ''AgAAACor''"
    and pw: "byteorder w = Some Little" "header_type w = Some Code_I"
    and qw: "appended_data_arrays w = [(0, ''UInt8'', 1)] @ (7, ''UInt8'', 2) # []"
    using appended_example_two [OF byteorders_values(1) z int_literal_offsets(1)] by fastforce
  have dw: "b64decode (array_data w) = Inr ?raw"
    by (simp only: aw blob_example)
  have 4: "handle_appended_data native w = Inl ?struct" for native
    using appended_offset_past_end [OF dw pw qw _ past, of native]
    by (simp add: ssize_max_def one_array_resolve del: resolve.simps)
  from s d q 1 t q' 2 v q'' 3 w qw 4 show ?thesis by auto
qed

lemma two_arrays_blob:
  "length_header Big Code_I (raw_bytes Big Code_H [1]) @ raw_bytes Big Code_H [1]
     @ length_header Big Code_I (raw_bytes Big Code_H [2, 3]) @ raw_bytes Big Code_H [2, 3]
   = [CHR 0x00, CHR 0x00, CHR 0x00, CHR 0x02, CHR 0x00, CHR 0x01,
      CHR 0x00, CHR 0x00, CHR 0x00, CHR 0x04, CHR 0x00, CHR 0x02, CHR 0x00, CHR 0x03]"
  by (simp add: raw_bytes_def length_header_def item_bytes_def bytes_of_def to_little_numeral
        char_of_eq_nat)

lemma two_arrays_text:
  "b64decode ''AAAAAgABAAAABAACAAM=''
   = Inr [CHR 0x00, CHR 0x00, CHR 0x00, CHR 0x02, CHR 0x00, CHR 0x01,
      CHR 0x00, CHR 0x00, CHR 0x00, CHR 0x04, CHR 0x00, CHR 0x02, CHR 0x00, CHR 0x03]"
  by (simp add: b64decode_def table_a2b_def char_of_eq_nat)

lemma two_arrays_resolve:
  "resolve native Big Code_I
     [CHR 0x00, CHR 0x00, CHR 0x00, CHR 0x02, CHR 0x00, CHR 0x01,
      CHR 0x00, CHR 0x00, CHR 0x00, CHR 0x04, CHR 0x00, CHR 0x02, CHR 0x00, CHR 0x03]
     es [(0, ''UInt16'', 1), (6, ''UInt16'', 2)]
   = Inr (set_text
       (set_text es 1 (NDArray Code_H [1] (if native = Little then [256] else [1])))
       2 (NDArray Code_H [2] (if native = Little then [512, 768] else [2, 3])))"
  by (cases native)
     (simp_all add: unpack_from_def as_ssize_def ssize_max_def wrap_ssize_def item_of_def
        unsigned_of_def getitem_def buffers_def quotient_def fromstring_def slice_from_def
        items_from_numeral)


text \<open>
  Claim C3.  The resolver reads the length header at the registration's offset in the
  byte order of the document, divides by the item size and reads the items right after
  the header, but it reads them in the byte order of the machine: line 134 takes the
  dtype from \<^verbatim>\<open>self.buffers\<close> without \<^verbatim>\<open>self.byteorder\<close>, which \<^verbatim>\<open>handle_data_array\<close>
  (line 102) puts in front.  For the big-endian blob of the two \<^verbatim>\<open>UInt16\<close> arrays [1]
  and [2, 3], each behind its \<^verbatim>\<open>UInt32\<close> length header, and registrations at the offsets
  0 and 6, a little-endian machine yields [256] and [512, 768]; a big-endian machine
  yields [1] and [2, 3].
\<close>

theorem appended_items_native_byte_order:
  "\<exists>s. appended_example ''BigEndian'' [(''UInt16'', ''0''), (''UInt16'', ''6'')]
          ''AAAAAgABAAAABAACAAM='' = Inr s \<and>
      b64decode (array_data s)
        = Inr (length_header Big Code_I (raw_bytes Big Code_H [1]) @ raw_bytes Big Code_H [1]
               @ length_header Big Code_I (raw_bytes Big Code_H [2, 3])
               @ raw_bytes Big Code_H [2, 3]) \<and>
      (\<exists>t. handle_appended_data Little s = Inr t \<and>
         text_slot (elems t 1) = Some (NDArray Code_H [1] [256]) \<and>
         text_slot (elems t 2) = Some (NDArray Code_H [2] [512, 768])) \<and>
      (\<exists>t. handle_appended_data Big s = Inr t \<and>
         text_slot (elems t 1) = Some (NDArray Code_H [1] [1]) \<and>
         text_slot (elems t 2) = Some (NDArray Code_H [2] [2, 3]))"
proof -
  have z: "int_literal ''0'' = Some 0"
    by (rule int_literal_offsets)
  obtain s where s: "appended_example ''BigEndian'' [(''UInt16'', ''0''), (''UInt16'', ''6'')]
          ''AAAAAgABAAAABAACAAM='' = Inr s"
    and a: "array_data s = ''AAAAAgABAAAABAACAAM=''"
    and p: "byteorder s = Some Big" "header_type s = Some Code_I"
    and q: "appended_data_arrays s = [(0, ''UInt16'', 1), (6, ''UInt16'', 2)]"
    using appended_example_two [OF byteorders_values(2) z int_literal_six] by blast
  have d: "b64decode (array_data s)
        = Inr (length_header Big Code_I (raw_bytes Big Code_H [1]) @ raw_bytes Big Code_H [1]
               @ length_header Big Code_I (raw_bytes Big Code_H [2, 3])
               @ raw_bytes Big Code_H [2, 3])"
    by (simp only: a two_arrays_text two_arrays_blob)
  have h: "handle_appended_data native s
      = Inr (s\<lparr> elems := set_text
           (set_text (elems s) 1 (NDArray Code_H [1] (if native = Little then [256] else [1])))
           2 (NDArray Code_H [2] (if native = Little then [512, 768] else [2, 3])) \<rparr>)"
    for native
    by (simp add: handle_appended_data_def a two_arrays_text p q getattr_def two_arrays_resolve
          del: resolve.simps One_nat_def)
  have l: "\<exists>t. handle_appended_data Little s = Inr t \<and>
         text_slot (elems t 1) = Some (NDArray Code_H [1] [256]) \<and>
         text_slot (elems t 2) = Some (NDArray Code_H [2] [512, 768])"
    by (simp add: h set_text_def)
  have b: "\<exists>t. handle_appended_data Big s = Inr t \<and>
         text_slot (elems t 1) = Some (NDArray Code_H [1] [1]) \<and>
         text_slot (elems t 2) = Some (NDArray Code_H [2] [2, 3])"
    by (simp add: h set_text_def)
  from s d l b show ?thesis by blast
qed











subsection \<open>A whole run of events\<close>

lemma run_append:
  "run native text_mode s (xs @ ys)
     = seq (run native text_mode s xs) (\<lambda>s'. run native text_mode s' ys)"
proof (induction xs arbitrary: s)
  case Nil
  show ?case by simp
next
  case (Cons ev xs)
  show ?case
    by (cases "dispatch native text_mode s ev") (simp_all add: Cons.IH)
qed















lemma int_literal_four: "int_literal ''4'' = Some 4"
  by (simp add: int_literal_def is_space_def is_digit_def digits_value_def)

lemma appended_events_final:
  assumes "int_literal nc = Some C"
  shows "\<exists>t. run native text_mode_example init
            (appended_events [''NumberOfComponents'' \<mapsto> nc] []) = Inr t \<and>
          text_slot (elems t 1) = Some (NDArray Code_B [2] [42, 43])"
proof -
  let ?v = "[''version'' \<mapsto> ''1.0'', ''byte_order'' \<mapsto> ''LittleEndian'']"
  let ?a = "[''NumberOfComponents'' \<mapsto> nc, ''type'' \<mapsto> ''UInt8'', ''format'' \<mapsto> ''appended'',
             ''offset'' \<mapsto> ''0'']"
  let ?d = "[''encoding'' \<mapsto> ''raw'']"
  let ?shape = "if 1 < C then [0, nat C] else [0]"
  define self where "self = (super_start init ''VTKFile'' ?v)
      \<lparr> array_data := [], split_header := Some False, byteorder := Some Little,
        header_type := Some Code_I \<rparr>"
  define opened where "opened = (super_start self ''DataArray'' ?a)
      \<lparr> array_data := [], appended_data_arrays := [(0, ''UInt8'', 1)] \<rparr>"
  define closed where "closed = opened
      \<lparr> elems := set_text (elems opened) 1 (NDArray Code_B ?shape []), array_data := [] \<rparr>"
  define closing where "closing = (super_start closed ''AppendedData'' ?d)
      \<lparr> array_data := ''AgAAACor'' \<rparr>"
  define final where "final = closing
      \<lparr> elems := set_text (elems closing) 1 (NDArray Code_B [2] [42, 43]), array_data := [] \<rparr>"
  have s1: "n_elems self = 1" "elem self = Some 0" "appended_data_arrays self = []"
    "byteorder self = Some Little" "header_type self = Some Code_I"
    by (simp_all add: self_def super_start_def init_def)
  have 1: "start init ''VTKFile'' ?v = Inr self"
    by (simp add: self_def start_def start_VTKFile_def byteorders_def)
  have 2: "start self ''DataArray'' ?a = Inr opened"
    by (simp add: opened_def start_def start_DataArray_def getitem_def getattr_def py_int_def
          int_literal_offsets super_start_def s1)
  have s2: "elem opened = Some 1" "tag (elems opened 1) = ''DataArray''"
    "attrib (elems opened 1) = ?a" "array_data opened = []" "byteorder opened = Some Little"
    "header_type opened = Some Code_I" "appended_data_arrays opened = [(0, ''UInt8'', 1)]"
    "n_elems opened = 2"
    by (simp_all add: opened_def super_start_def s1)
  have nc: "number_of_components ?a = Inr C"
    by (rule number_of_components_Some [OF _ assms]) simp
  have 3: "end_tag native text_mode_example opened ''DataArray'' = Inr closed"
    by (simp add: closed_def end_tag_def handle_data_array_def decode_array_def getattr_def
          getitem_def buffers_def text_mode_example_def nc reshape_def s2 del: One_nat_def)
  have s3: "n_elems closed = 2" "header_type closed = Some Code_I" "byteorder closed = Some Little"
    "appended_data_arrays closed = [(0, ''UInt8'', 1)]"
    by (simp_all add: closed_def s2)
  have 4: "start closed ''AppendedData'' ?d = Inr ((super_start closed ''AppendedData'' ?d)
      \<lparr> array_data := [] \<rparr>)"
    by (simp add: start_def)
  have 5: "data ((super_start closed ''AppendedData'' ?d)\<lparr> array_data := [] \<rparr>) ''AgAAACor''
      = Inr closing"
    by (simp add: closing_def data_def getattr_def super_start_def)
  have s5: "array_data closing = ''AgAAACor''" "header_type closing = Some Code_I"
    "byteorder closing = Some Little" "appended_data_arrays closing = [(0, ''UInt8'', 1)]"
    by (simp_all add: closing_def super_start_def s3)
  have 6: "end_tag native text_mode_example closing ''AppendedData'' = Inr final"
    by (simp add: final_def end_tag_def handle_appended_data_def s5 blob_example getattr_def
          one_array_resolve del: resolve.simps)
  have "run native text_mode_example init (appended_events [''NumberOfComponents'' \<mapsto> nc] [])
      = Inr final"
    by (simp add: appended_events_def 1 2 3 4 5 6)
  moreover have "text_slot (elems final 1) = Some (NDArray Code_B [2] [42, 43])"
    by (simp add: final_def set_text_def)
  ultimately show ?thesis
    by blast
qed

text \<open>
  Claim C6.  The reshape is applied by \<^verbatim>\<open>handle_data_array\<close> alone (lemma \<open>reshape_rows\<close>:
  there the claim holds).  For an array with \<^verbatim>\<open>format=appended\<close> the final payload is
  written by the resolver, which never reads \<^verbatim>\<open>NumberOfComponents\<close> (lines 132 to 136):
  the whole document with one appended \<^verbatim>\<open>UInt8\<close> array of the two items 42 and 43 ends with
  the flat array [42, 43] for \<^verbatim>\<open>NumberOfComponents="2"\<close>, where the claim has one row of two
  items, and with the same flat array and no error for \<^verbatim>\<open>NumberOfComponents="4"\<close>, where
  the claim has a failure.  The binary sibling does both: four items become two rows of
  two for 2 and are refused for 3.
\<close>

theorem appended_array_not_reshaped:
  "(\<exists>t. run native text_mode_example init
           (appended_events [''NumberOfComponents'' \<mapsto> ''2''] []) = Inr t \<and>
        text_slot (elems t 1) = Some (NDArray Code_B [2] [42, 43])) \<and>
   (\<exists>t. run native text_mode_example init
           (appended_events [''NumberOfComponents'' \<mapsto> ''4''] []) = Inr t \<and>
        text_slot (elems t 1) = Some (NDArray Code_B [2] [42, 43])) \<and>
   (\<exists>s t. reshape_example ''2'' = Inr s \<and> handle_data_array text_mode s = Inr t \<and>
        text_slot (elems t 1) = Some (NDArray Code_h [2, 2] [1, - 2, 3, 4])) \<and>
   (\<exists>s. reshape_example ''3'' = Inr s \<and>
        handle_data_array text_mode s
          = Inl (ValueError ''total size of new array must be unchanged''))"
proof -
  note a = appended_events_final [OF int_literal_examples(1), of native]
  note b = appended_events_final [OF int_literal_four, of native]
  from reshape_example_rows have
    c: "\<exists>s t. reshape_example ''2'' = Inr s \<and> handle_data_array text_mode s = Inr t \<and>
        text_slot (elems t 1) = Some (NDArray Code_h [2, 2] [1, - 2, 3, 4])"
    and d: "\<exists>s. reshape_example ''3'' = Inr s \<and>
        handle_data_array text_mode s
          = Inl (ValueError ''total size of new array must be unchanged'')"
    by blast+
  from a b c d show ?thesis
    by (intro conjI)
qed

section \<open>The patcher\<close>

text \<open>
  Claim C2.  Feeding a document in chunks is not the same as feeding it whole when a
  chunk boundary falls inside the start marker: \<^verbatim>\<open>feed\<close> looks for the marker in the new
  chunk alone (line 24), finds it in neither part, and hands both parts on with the raw
  bytes in place.  Fed whole, the raw bytes \<^verbatim>\<open>AB\<close> reach the tokenizer as their base64
  text; fed in the two chunks, they reach it raw, underscore included.
\<close>

theorem feed_split_inside_start_marker:
  \<open>''<VTKFile version="1.0" byte_order="LittleEndian"><AppendedData enco''
     @ ''ding="raw">_AB</AppendedData></VTKFile>''
     = ''<VTKFile version="1.0" byte_order="LittleEndian"><AppendedData encoding="raw">_AB</AppendedData></VTKFile>'' \<and>
   concat (fed (feed_all parser_init
     [''<VTKFile version="1.0" byte_order="LittleEndian"><AppendedData encoding="raw">_AB</AppendedData></VTKFile>'']))
     = ''<VTKFile version="1.0" byte_order="LittleEndian"><AppendedData encoding="raw">''
       @ b64encode ''AB'' @ ''</AppendedData></VTKFile>'' \<and>
   concat (fed (feed_all parser_init
     [''<VTKFile version="1.0" byte_order="LittleEndian"><AppendedData enco'',
      ''ding="raw">_AB</AppendedData></VTKFile>'']))
     = ''<VTKFile version="1.0" byte_order="LittleEndian"><AppendedData encoding="raw">_AB</AppendedData></VTKFile>''\<close>
  by code_simp

text \<open>
  A second way in which the chunks matter: \<^verbatim>\<open>.\<close> does not match a line feed, so a raw
  section with a line feed between two other bytes never matches \<^verbatim>\<open>raw_sub_pattern\<close>.
  Fed whole, the document is handed on unpatched; fed in two chunks with the end tag in
  the second, the parser waits for a match that never comes and hands on nothing.
\<close>

lemma feed_line_feed_in_raw_section:
  \<open>concat (fed (feed_all parser_init
     [''<AppendedData encoding="raw">_A'' @ [CHR 0x0A] @ ''B</AppendedData>'']))
     = ''<AppendedData encoding="raw">_A'' @ [CHR 0x0A] @ ''B</AppendedData>'' \<and>
   feed_all parser_init
     [''<AppendedData encoding="raw">_A'' @ [CHR 0x0A], ''B</AppendedData>'']
     = \<lparr> incomplete_raw_tag = True,
         raw_data = ''<AppendedData encoding="raw">_A'' @ [CHR 0x0A] @ ''B</AppendedData>'',
         fed = [] \<rparr>\<close>
  by code_simp

end
